theory Spec2Isabelle
  imports Complex_Main "HOL-Library.Sublist"
begin

section \<open>JavaScript values and built-ins used by the dashboard\<close>

text \<open>
  A JavaScript number as far as \<^verbatim>\<open>Array.prototype.slice\<close> can tell numbers apart:
  \<^verbatim>\<open>NaN\<close>, the two infinities, and the finite values (taken exactly, as rationals).
\<close>

datatype jsnum = NaN | NegInf | Fin rat | PosInf

datatype integer_or_inf = MinusInfinity | Integer int | PlusInfinity

text \<open>ECMAScript \<^verbatim>\<open>ToIntegerOrInfinity\<close>: \<^verbatim>\<open>NaN\<close> is 0, finite values are truncated towards 0.\<close>

fun ToIntegerOrInfinity :: "jsnum \<Rightarrow> integer_or_inf" where
  "ToIntegerOrInfinity NaN = Integer 0"
| "ToIntegerOrInfinity PosInf = PlusInfinity"
| "ToIntegerOrInfinity NegInf = MinusInfinity"
| "ToIntegerOrInfinity (Fin r) = Integer (if r < 0 then - \<lfloor>- r\<rfloor> else \<lfloor>r\<rfloor>)"

text \<open>
  The index clamping of \<^verbatim>\<open>slice\<close>: a negative relative index counts from the end of the
  array, and the result is cut to the range from 0 to the length.
\<close>

fun clamp_index :: "int \<Rightarrow> integer_or_inf \<Rightarrow> int" where
  "clamp_index len MinusInfinity = 0"
| "clamp_index len (Integer r) = (if r < 0 then max (len + r) 0 else min r len)"
| "clamp_index len PlusInfinity = len"

text \<open>\<^verbatim>\<open>xs.slice(start, end)\<close>: the elements from index \<open>k\<close> up to, not including, \<open>final\<close>.\<close>

definition slice_js :: "'a list \<Rightarrow> jsnum \<Rightarrow> jsnum \<Rightarrow> 'a list" where
  "slice_js xs start end =
     (let len = int (length xs);
          k = clamp_index len (ToIntegerOrInfinity start);
          final = clamp_index len (ToIntegerOrInfinity end)
      in take (nat (final - k)) (drop (nat k) xs))"

text \<open>
  \<^verbatim>\<open>toLowerCase\<close> on the ASCII letters; every other character is left as it is
  (a \<^typ>\<open>char\<close> is a byte, and the bytes of a non-ASCII character are not letters).
\<close>

definition lower_char :: "char \<Rightarrow> char" where
  "lower_char c =
     (let n = (of_char c :: nat) in if 65 \<le> n \<and> n \<le> 90 then char_of (n + 32) else c)"

definition toLowerCase :: "string \<Rightarrow> string" where
  "toLowerCase s = map lower_char s"

text \<open>
  \<^verbatim>\<open>s.includes(q)\<close>: the search string is looked for at every position of \<open>s\<close>, from
  the left; the empty search string is found in every string.
\<close>

fun includes_js :: "string \<Rightarrow> string \<Rightarrow> bool" where
  "includes_js [] q = (q = [])"
| "includes_js (c # cs) q = (prefix q (c # cs) \<or> includes_js cs q)"

text \<open>A value of a JSON document, as far as the views display one.\<close>

datatype jsval = JNull | JBool bool | JNum rat | JStr string

section \<open>The artifacts\<close>

text \<open>
  A field that a JSON object may lack is an \<open>option\<close>: \<open>None\<close> is \<^verbatim>\<open>undefined\<close>.
\<close>

record ranked_entry =
  ticker :: string
  score_0_100 :: "jsval option"
  last_close :: "jsval option"
  avg_vol20 :: "jsval option"
  explanation :: "string option"

record summary_artifact =
  generated_at :: "string option"
  top_rows :: "ranked_entry list option"

record history_point =
  Date :: string
  Close :: rat

record detail_artifact =
  history :: "history_point list option"
  indicators :: "(string \<times> jsval) list option"

section \<open>The ranking table (\<^verbatim>\<open>TopTable.jsx\<close>)\<close>

text \<open>The two pieces of local state: \<^verbatim>\<open>useState("")\<close> and \<^verbatim>\<open>useState(50)\<close>.\<close>

record table_state =
  q :: string
  topN :: jsnum

definition table_init :: table_state where
  "table_init = \<lparr>q = [], topN = Fin 50\<rparr>"

text \<open>\<^verbatim>\<open>it.explanation || ""\<close>: a missing and an empty explanation are both falsy.\<close>

definition explanation_or_empty :: "ranked_entry \<Rightarrow> string" where
  "explanation_or_empty it = (case explanation it of None \<Rightarrow> [] | Some e \<Rightarrow> e)"

text \<open>The callback given to \<^verbatim>\<open>filter\<close>: \<^verbatim>\<open>!q\<close> holds of the empty string only.\<close>

definition row_matches :: "string \<Rightarrow> ranked_entry \<Rightarrow> bool" where
  "row_matches qs it =
     (if qs = [] then True
      else includes_js (toLowerCase (ticker it @ '' '' @ explanation_or_empty it))
             (toLowerCase qs))"

text \<open>\<^verbatim>\<open>data || []\<close>: the \<open>data\<close> property may be absent.\<close>

definition data_or_empty :: "ranked_entry list option \<Rightarrow> ranked_entry list" where
  "data_or_empty data = (case data of None \<Rightarrow> [] | Some xs \<Rightarrow> xs)"

text \<open>\<^verbatim>\<open>(data || []).filter(...).slice(0, topN)\<close>.\<close>

definition filtered :: "ranked_entry list option \<Rightarrow> string \<Rightarrow> jsnum \<Rightarrow> ranked_entry list" where
  "filtered data qs n = slice_js (filter (row_matches qs) (data_or_empty data)) (Fin 0) n"

text \<open>
  The two state setters and the \<^verbatim>\<open>onChange\<close> handler of the number field,
  \<^verbatim>\<open>e => setTopN(Number(e.target.value))\<close>. \<^verbatim>\<open>Number\<close> is the built-in conversion of the
  text of the field; it is a parameter here, and it yields a number for every string.
\<close>

definition setQ :: "string \<Rightarrow> table_state \<Rightarrow> table_state" where
  "setQ v st = st\<lparr>q := v\<rparr>"

definition setTopN :: "jsnum \<Rightarrow> table_state \<Rightarrow> table_state" where
  "setTopN n st = st\<lparr>topN := n\<rparr>"

definition topN_onChange :: "(string \<Rightarrow> jsnum) \<Rightarrow> string \<Rightarrow> table_state \<Rightarrow> table_state" where
  "topN_onChange Number v st = setTopN (Number v) st"

text \<open>The body of the table: one row per element of \<open>filtered\<close>, numbered from 1.\<close>

definition table_body :: "ranked_entry list option \<Rightarrow> table_state \<Rightarrow> (nat \<times> ranked_entry) list" where
  "table_body data st =
     (let rows = filtered data (q st) (topN st) in zip (map Suc [0..<length rows]) rows)"

text \<open>
  The filtering rule in the words of the specification: a row passes iff the filter string
  is empty, or the lowercased filter string is a substring of the lowercased
  \<^verbatim>\<open>"<ticker> <explanation>"\<close>, a missing explanation being the empty string.
\<close>

definition spec_shown_rule :: "string \<Rightarrow> ranked_entry \<Rightarrow> bool" where
  "spec_shown_rule qs it \<longleftrightarrow>
     qs = [] \<or>
     sublist (toLowerCase qs)
       (toLowerCase (ticker it @ '' '' @ (case explanation it of None \<Rightarrow> [] | Some e \<Rightarrow> e)))"

text \<open>Three rows of a summary, for the concrete runs below.\<close>

definition entry_AAPL :: ranked_entry where
  "entry_AAPL = \<lparr>ticker = ''AAPL'', score_0_100 = Some (JNum 80),
      last_close = Some (JNum (1901 / 10)), avg_vol20 = Some (JNum 50000000),
      explanation = Some ''strong''\<rparr>"

definition entry_MSFT :: ranked_entry where
  "entry_MSFT = \<lparr>ticker = ''MSFT'', score_0_100 = Some (JNum 75),
      last_close = Some (JNum 410), avg_vol20 = Some (JNum 20000000), explanation = None\<rparr>"

definition entry_GOOG :: ranked_entry where
  "entry_GOOG = \<lparr>ticker = ''GOOG'', score_0_100 = Some (JNum 60),
      last_close = Some (JNum 150), avg_vol20 = Some (JNum 10000000), explanation = Some []\<rparr>"

section \<open>Fetching an artifact\<close>

text \<open>
  \<^verbatim>\<open>fetch(url, {cache:'no-store'}).then(r=>r.json()).then(j=>setData(j)).catch(e=>console.error(e))\<close>:
  the promise chain is rejected when the transport fails (\<^verbatim>\<open>fetch\<close> rejects) or when the
  body is not JSON (\<^verbatim>\<open>r.json()\<close> rejects); otherwise it delivers the parsed value, which may
  be \<^verbatim>\<open>null\<close> (\<open>None\<close>).
\<close>

datatype rejection = NetworkFailure | UnparseableBody

datatype 'a fetch_outcome = Rejected rejection | Parsed 'a

record request =
  url :: string
  cache :: string

definition summary_request :: request where
  "summary_request = \<lparr>url = ''/top_picks.json'', cache = ''no-store''\<rparr>"

definition detail_request :: "string \<Rightarrow> request" where
  "detail_request t = \<lparr>url = ''/data/'' @ t @ ''.json'', cache = ''no-store''\<rparr>"

section \<open>The detail view (\<^verbatim>\<open>TickerDetail.jsx\<close>)\<close>

text \<open>A Chart.js instance: what \<^verbatim>\<open>new Chart(ctx, {...})\<close> is given, and an identity.\<close>

record chart =
  chart_id :: nat
  chart_type :: string
  labels :: "string list"
  dataset_label :: string
  dataset_data :: "rat list"
  legend_display :: bool
  x_display :: bool

text \<open>
  The state of one mounted component: the \<open>ticker\<close> property, the \<open>data\<close> state, the
  cleanup function that the last run of the chart effect returned (it closes over the
  chart it destroys), and the world around it: the charts not yet destroyed, the
  promises in flight, the requests issued and the console.
\<close>

record detail_state =
  mounted :: bool
  ticker_prop :: "string option"
  data :: "detail_artifact option"
  chart_cleanup :: "nat option"
  live_charts :: "chart list"
  next_chart_id :: nat
  pending :: "(nat \<times> request) list"
  next_request_id :: nat
  fetch_log :: "request list"
  console :: "rejection list"

definition detail_init :: "string option \<Rightarrow> detail_state" where
  "detail_init t = \<lparr>mounted = True, ticker_prop = t, data = None, chart_cleanup = None,
      live_charts = [], next_chart_id = 0, pending = [], next_request_id = 0,
      fetch_log = [], console = []\<rparr>"

text \<open>What the component returns. A property read on \<^verbatim>\<open>undefined\<close> raises a TypeError.\<close>

record loaded_view =
  heading :: string
  score :: "jsval option"
  explanation_line :: "jsval option"
  canvas_id :: string
  last_close_line :: "jsval option"
  avg_vol20_line :: "jsval option"
  key_indicators :: "(string \<times> jsval) list"

datatype view = SelectPrompt | LoadingView string | LoadedView loaded_view

datatype render_error = TypeError

definition loaded :: "string \<Rightarrow> (string \<times> jsval) list \<Rightarrow> loaded_view" where
  "loaded t m = \<lparr>heading = t, score = map_of m ''score_0_100'',
      explanation_line = map_of m ''explanation'', canvas_id = ''histChart'',
      last_close_line = map_of m ''last_close'', avg_vol20_line = map_of m ''avg_vol20'',
      key_indicators = m\<rparr>"

text \<open>
  The return statements of the component, in their order: \<^verbatim>\<open>!ticker\<close> holds of
  \<^verbatim>\<open>null\<close> and of the empty string, \<^verbatim>\<open>!data\<close> of \<^verbatim>\<open>null\<close>.
\<close>

definition TickerDetail_render :: "detail_state \<Rightarrow> render_error + view" where
  "TickerDetail_render st =
     (case ticker_prop st of
        None \<Rightarrow> Inr SelectPrompt
      | Some t \<Rightarrow>
          if t = [] then Inr SelectPrompt
          else (case data st of
                  None \<Rightarrow> Inr (LoadingView t)
                | Some d \<Rightarrow>
                    (case indicators d of
                       None \<Rightarrow> Inl TypeError
                     | Some m \<Rightarrow> Inr (LoadedView (loaded t m)))))"

text \<open>The first effect, with dependencies \<^verbatim>\<open>[ticker]\<close>.\<close>

definition fetch_effect :: "detail_state \<Rightarrow> detail_state" where
  "fetch_effect st =
     (case ticker_prop st of
        None \<Rightarrow> st
      | Some t \<Rightarrow>
          if t = [] then st
          else st\<lparr>pending := pending st @ [(next_request_id st, detail_request t)],
                  next_request_id := Suc (next_request_id st),
                  fetch_log := fetch_log st @ [detail_request t]\<rparr>)"

text \<open>
  \<^verbatim>\<open>document.getElementById('histChart')\<close> finds the canvas iff the committed output is
  the loaded view.
\<close>

definition canvas_present :: "detail_state \<Rightarrow> bool" where
  "canvas_present st =
     (case TickerDetail_render st of Inr (LoadedView v) \<Rightarrow> True | _ \<Rightarrow> False)"

definition new_chart :: "nat \<Rightarrow> string option \<Rightarrow> history_point list \<Rightarrow> chart" where
  "new_chart i t h = \<lparr>chart_id = i, chart_type = ''line'', labels = map Date h,
      dataset_label = (case t of None \<Rightarrow> ''null'' | Some s \<Rightarrow> s) @ '' Close'',
      dataset_data = map Close h, legend_display = False, x_display = False\<rparr>"

text \<open>
  The second effect, with dependencies \<^verbatim>\<open>[data, ticker]\<close>: it returns a cleanup function
  only when it has constructed a chart.
\<close>

definition chart_effect :: "detail_state \<Rightarrow> detail_state" where
  "chart_effect st =
     (case data st of
        None \<Rightarrow> st\<lparr>chart_cleanup := None\<rparr>
      | Some d \<Rightarrow>
          (case history d of
             None \<Rightarrow> st\<lparr>chart_cleanup := None\<rparr>
           | Some h \<Rightarrow>
               if \<not> canvas_present st then st\<lparr>chart_cleanup := None\<rparr>
               else st\<lparr>live_charts :=
                         live_charts st @ [new_chart (next_chart_id st) (ticker_prop st) h],
                       chart_cleanup := Some (next_chart_id st),
                       next_chart_id := Suc (next_chart_id st)\<rparr>))"

text \<open>Running the cleanup function: \<^verbatim>\<open>chart.destroy()\<close>.\<close>

definition run_chart_cleanup :: "detail_state \<Rightarrow> detail_state" where
  "run_chart_cleanup st =
     (case chart_cleanup st of
        None \<Rightarrow> st
      | Some c \<Rightarrow> st\<lparr>live_charts := filter (\<lambda>ch. chart_id ch \<noteq> c) (live_charts st),
                       chart_cleanup := None\<rparr>)"

definition unmount :: "detail_state \<Rightarrow> detail_state" where
  "unmount st = (run_chart_cleanup st)\<lparr>mounted := False\<rparr>"

text \<open>
  One commit of React, as the list of the states it passes through. The component is
  rendered; an error raised while rendering is caught by no error boundary and unmounts
  the tree. Otherwise the cleanup functions of the effects whose dependencies changed
  run first, then those effects, in the order of their declaration. \<open>fd\<close> and \<open>cd\<close>
  tell whether the dependencies of the fetch effect and of the chart effect changed.
\<close>

definition commit_states :: "bool \<Rightarrow> bool \<Rightarrow> detail_state \<Rightarrow> detail_state list" where
  "commit_states fd cd st =
     (case TickerDetail_render st of
        Inl e \<Rightarrow> [unmount st]
      | Inr v \<Rightarrow>
          (let s1 = (if cd then run_chart_cleanup st else st);
               s2 = (if fd then fetch_effect s1 else s1);
               s3 = (if cd then chart_effect s2 else s2)
           in [s1, s2, s3]))"

text \<open>Mounting renders the initial state and runs every effect.\<close>

definition mount :: "string option \<Rightarrow> detail_state" where
  "mount t = last (commit_states True True (detail_init t))"

text \<open>
  What happens to a mounted view: the parent passes a ticker, the promise of a request
  settles, or the view is unmounted. Dependencies are compared with \<^verbatim>\<open>Object.is\<close>: a
  ticker by its value, and a parsed object is a fresh one, different from every other;
  setting \<^verbatim>\<open>null\<close> over \<^verbatim>\<open>null\<close> changes nothing and renders nothing. A state setter of
  an unmounted component does nothing, while \<^verbatim>\<open>console.error\<close> still logs.
\<close>

datatype event =
    SetTicker "string option"
  | Settle nat "detail_artifact option fetch_outcome"
  | Unmount

fun detail_steps :: "event \<Rightarrow> detail_state \<Rightarrow> detail_state list" where
  "detail_steps (SetTicker t) st =
     (if \<not> mounted st \<or> t = ticker_prop st then []
      else (let s1 = st\<lparr>ticker_prop := t\<rparr> in s1 # commit_states True True s1))"
| "detail_steps (Settle rid out) st =
     (case map_of (pending st) rid of
        None \<Rightarrow> []
      | Some rq \<Rightarrow>
          (let s0 = st\<lparr>pending := filter (\<lambda>p. fst p \<noteq> rid) (pending st)\<rparr>
           in (case out of
                 Rejected e \<Rightarrow> [s0\<lparr>console := console s0 @ [e]\<rparr>]
               | Parsed j \<Rightarrow>
                   if \<not> mounted s0 \<or> (j = None \<and> data s0 = None) then [s0]
                   else (let s1 = s0\<lparr>data := j\<rparr> in s1 # commit_states False True s1))))"
| "detail_steps Unmount st = (if mounted st then [unmount st] else [])"

definition detail_handle :: "event \<Rightarrow> detail_state \<Rightarrow> detail_state" where
  "detail_handle ev st = last (st # detail_steps ev st)"

fun detail_run :: "event list \<Rightarrow> detail_state \<Rightarrow> detail_state" where
  "detail_run [] st = st"
| "detail_run (ev # evs) st = detail_run evs (detail_handle ev st)"

text \<open>Every state the view passes through during a run, those inside a commit included.\<close>

fun detail_trace :: "event list \<Rightarrow> detail_state \<Rightarrow> detail_state list" where
  "detail_trace [] st = [st]"
| "detail_trace (ev # evs) st =
     (st # detail_steps ev st) @ detail_trace evs (detail_handle ev st)"

text \<open>
  The invariant of the chart effect: the charts alive are exactly the one that the
  pending cleanup function will destroy, if there is such a function.
\<close>

definition chart_inv :: "detail_state \<Rightarrow> bool" where
  "chart_inv st \<longleftrightarrow>
     (case chart_cleanup st of
        None \<Rightarrow> live_charts st = []
      | Some c \<Rightarrow> c < next_chart_id st \<and> map chart_id (live_charts st) = [c])"

text \<open>Two detail artifacts, and one without a history, for the concrete runs below.\<close>

definition indicators_AAPL :: "(string \<times> jsval) list" where
  "indicators_AAPL = [(''score_0_100'', JNum 80), (''explanation'', JStr ''strong''),
                      (''last_close'', JNum (1901 / 10)), (''avg_vol20'', JNum 50000000)]"

definition indicators_MSFT :: "(string \<times> jsval) list" where
  "indicators_MSFT = [(''score_0_100'', JNum 75), (''explanation'', JStr ''steady''),
                      (''last_close'', JNum 410), (''avg_vol20'', JNum 20000000)]"

definition detail_AAPL :: detail_artifact where
  "detail_AAPL = \<lparr>history = Some [\<lparr>Date = ''2024-01-01'', Close = 188\<rparr>,
                                   \<lparr>Date = ''2024-01-02'', Close = 1901 / 10\<rparr>],
      indicators = Some indicators_AAPL\<rparr>"

definition detail_MSFT :: detail_artifact where
  "detail_MSFT = \<lparr>history = Some [\<lparr>Date = ''2024-01-02'', Close = 410\<rparr>],
      indicators = Some indicators_MSFT\<rparr>"

definition detail_no_history :: detail_artifact where
  "detail_no_history = \<lparr>history = None, indicators = Some indicators_AAPL\<rparr>"

text \<open>The parsed value of the JSON document \<^verbatim>\<open>{}\<close>: an object without any field.\<close>

definition detail_no_indicators :: detail_artifact where
  "detail_no_indicators = \<lparr>history = None, indicators = None\<rparr>"

text \<open>The data of a view can be rendered when it is \<^verbatim>\<open>null\<close> or has its indicators.\<close>

definition renderable :: "detail_state \<Rightarrow> bool" where
  "renderable st \<longleftrightarrow> (case data st of None \<Rightarrow> True | Some d \<Rightarrow> indicators d \<noteq> None)"

text \<open>
  The concrete runs: two tickers selected one after the other with both requests in
  flight; the same, the second request settling before the first; and one ticker
  selected and loaded, then a second one selected.
\<close>

definition both_pending_run :: detail_state where
  "both_pending_run =
     detail_run [SetTicker (Some ''AAPL''), SetTicker (Some ''MSFT'')] (mount None)"

definition stale_run :: detail_state where
  "stale_run =
     detail_run [Settle 1 (Parsed (Some detail_MSFT)), Settle 0 (Parsed (Some detail_AAPL))]
       both_pending_run"

definition loaded_run :: detail_state where
  "loaded_run =
     detail_run [SetTicker (Some ''AAPL''), Settle 0 (Parsed (Some detail_AAPL))] (mount None)"

definition switch_run :: detail_state where
  "switch_run = detail_handle (SetTicker (Some ''MSFT'')) loaded_run"

section \<open>The application shell (\<^verbatim>\<open>App\<close>)\<close>

text \<open>
  The two pieces of state of the shell, the promise of its one request, and the two
  components it renders: the local state of the table and the detail view.
\<close>

record app_state =
  app_data :: "summary_artifact option"
  selected :: "string option"
  summary_pending :: bool
  app_fetch_log :: "request list"
  app_console :: "rejection list"
  table :: table_state
  detail :: detail_state

text \<open>\<^verbatim>\<open>data?.top || []\<close>.\<close>

definition table_data :: "app_state \<Rightarrow> ranked_entry list" where
  "table_data st =
     (case app_data st of
        None \<Rightarrow> []
      | Some s \<Rightarrow> (case top_rows s of None \<Rightarrow> [] | Some xs \<Rightarrow> xs))"

definition app_rows :: "app_state \<Rightarrow> ranked_entry list" where
  "app_rows st = filtered (Some (table_data st)) (q (table st)) (topN (table st))"

text \<open>The tree is one: it is mounted as long as no render has raised an error.\<close>

definition app_mounted :: "app_state \<Rightarrow> bool" where
  "app_mounted st = mounted (detail st)"

text \<open>
  The header: while the tree is mounted it shows \<^verbatim>\<open>data?.generated_at\<close>, which is blank
  (\<open>None\<close>) as long as the data is \<^verbatim>\<open>null\<close> or has no such field; once a render error has
  unmounted the tree there is no header. \<open>header_generated_at\<close> is the timestamp on
  display, if any.
\<close>

datatype header = NoHeader | Header "string option"

definition App_header :: "app_state \<Rightarrow> header" where
  "App_header st =
     (if app_mounted st
      then Header (case app_data st of None \<Rightarrow> None | Some s \<Rightarrow> generated_at s)
      else NoHeader)"

definition header_generated_at :: "app_state \<Rightarrow> string option" where
  "header_generated_at st = (case App_header st of NoHeader \<Rightarrow> None | Header g \<Rightarrow> g)"

text \<open>
  Mounting: nothing is selected, the detail view is mounted without a ticker, and the
  effect with the empty dependency list issues the one request of the summary.
\<close>

definition app_mount :: app_state where
  "app_mount = \<lparr>app_data = None, selected = None, summary_pending = True,
      app_fetch_log = [summary_request], app_console = [], table = table_init,
      detail = mount None\<rparr>"

text \<open>
  The events of the shell: the promise of the summary settles, the user clicks the
  \<open>i\<close>-th row shown (\<^verbatim>\<open>onSelect(it.ticker)\<close>, that is \<^verbatim>\<open>setSelected\<close>), types in one of the two
  fields (the number field delivering \<^verbatim>\<open>Number(e.target.value)\<close>), or the promise of a
  detail request settles.
\<close>

datatype app_event =
    SummarySettled "summary_artifact option fetch_outcome"
  | RowClick nat
  | QInput string
  | TopNInput jsnum
  | DetailSettled nat "detail_artifact option fetch_outcome"

fun app_handle :: "app_event \<Rightarrow> app_state \<Rightarrow> app_state" where
  "app_handle (SummarySettled out) st =
     (if \<not> summary_pending st then st
      else (let s0 = st\<lparr>summary_pending := False\<rparr>
            in (case out of
                  Rejected e \<Rightarrow> s0\<lparr>app_console := app_console s0 @ [e]\<rparr>
                | Parsed j \<Rightarrow> if app_mounted s0 then s0\<lparr>app_data := j\<rparr> else s0)))"
| "app_handle (RowClick i) st =
     (if app_mounted st \<and> i < length (app_rows st)
      then (let t = ticker (app_rows st ! i)
            in st\<lparr>selected := Some t,
                  detail := detail_handle (SetTicker (Some t)) (detail st)\<rparr>)
      else st)"
| "app_handle (QInput v) st =
     (if app_mounted st then st\<lparr>table := setQ v (table st)\<rparr> else st)"
| "app_handle (TopNInput n) st =
     (if app_mounted st then st\<lparr>table := setTopN n (table st)\<rparr> else st)"
| "app_handle (DetailSettled rid out) st =
     st\<lparr>detail := detail_handle (Settle rid out) (detail st)\<rparr>"

fun app_run :: "app_event list \<Rightarrow> app_state \<Rightarrow> app_state" where
  "app_run [] st = st"
| "app_run (ev # evs) st = app_run evs (app_handle ev st)"

text \<open>Every request issued since the shell was mounted, by the shell or by the detail view.\<close>

definition all_requests :: "app_state \<Rightarrow> request list" where
  "all_requests st = app_fetch_log st @ fetch_log (detail st)"

definition summary_AAPL :: summary_artifact where
  "summary_AAPL = \<lparr>generated_at = Some ''2024-01-01'', top_rows = Some [entry_AAPL]\<rparr>"

text \<open>
  A run of the shell: the summary is loaded, its row is clicked, and the detail request
  delivers an object without indicators.
\<close>

definition crash_run :: app_state where
  "crash_run =
     app_run [SummarySettled (Parsed (Some summary_AAPL)), RowClick 0,
              DetailSettled 0 (Parsed (Some detail_no_indicators))]
       app_mount"

section \<open>Properties of the ranking table\<close>

lemma includes_js_sublist: "includes_js s qs \<longleftrightarrow> sublist qs s"
  by (induction s) (auto simp: sublist_Cons_right)

lemma row_matches_spec: "row_matches qs it = spec_shown_rule qs it"
  by (simp add: row_matches_def spec_shown_rule_def explanation_or_empty_def includes_js_sublist)

lemma row_matches_spec_fun: "row_matches qs = spec_shown_rule qs"
  by (rule ext) (rule row_matches_spec)

lemma slice_js_from_0:
  "slice_js xs (Fin 0) n = take (nat (clamp_index (int (length xs)) (ToIntegerOrInfinity n))) xs"
  by (simp add: slice_js_def Let_def)

lemma filtered_take:
  "filtered rows qs n =
     take (nat (clamp_index (int (length (filter (row_matches qs) (data_or_empty rows))))
                  (ToIntegerOrInfinity n)))
       (filter (row_matches qs) (data_or_empty rows))"
  by (simp add: filtered_def slice_js_from_0)

lemma prefix_filtered: "prefix (filtered rows qs n) (filter (row_matches qs) (data_or_empty rows))"
  unfolding filtered_take by (rule take_is_prefix)

lemma length_filtered_nonneg:
  assumes "0 \<le> r"
  shows "length (filtered rows qs (Fin r)) =
           min (nat \<lfloor>r\<rfloor>) (length (filter (row_matches qs) (data_or_empty rows)))"
proof -
  have "0 \<le> \<lfloor>r\<rfloor>" using assms by simp
  then show ?thesis
    using assms unfolding filtered_take by (simp add: min_def)
qed

lemma entries_distinct:
  "entry_AAPL \<noteq> entry_MSFT" "entry_AAPL \<noteq> entry_GOOG" "entry_MSFT \<noteq> entry_GOOG"
  by (simp_all add: entry_AAPL_def entry_MSFT_def entry_GOOG_def)

lemma AAPL_aap: "spec_shown_rule ''aap'' entry_AAPL"
  unfolding row_matches_spec [symmetric] by code_simp

lemma AAPL_zzz: "\<not> spec_shown_rule ''zzz'' entry_AAPL"
  unfolding row_matches_spec [symmetric] by code_simp

text \<open>
  Claim C4, as stated, at a concrete input: with the empty filter string and the row
  limit 1, the second of two rows satisfies the filtering rule and is not shown.
\<close>

theorem filter_rule_truncated_counterexample:
  "spec_shown_rule [] entry_MSFT \<and> entry_MSFT \<in> set [entry_AAPL, entry_MSFT] \<and>
   entry_MSFT \<notin> set (filtered (Some [entry_AAPL, entry_MSFT]) [] (Fin 1))"
  using entries_distinct
  by (simp add: spec_shown_rule_def filtered_take row_matches_def data_or_empty_def)

text \<open>
  Claim C4, amended: the rows shown are the rows that satisfy the filtering rule of the
  specification (the filter string is empty, or the lowercased filter string is a
  substring of the lowercased ticker, space and explanation, a missing explanation being
  empty), cut by \<^verbatim>\<open>slice(0, N)\<close>. So every shown row is a row of the data that satisfies
  the rule (no non-matching row is shown), and when \<open>N\<close> is at least the number of rows
  that satisfy the rule, a row is shown iff it is a row of the data that satisfies it.
\<close>

theorem filter_rule:
  "filtered rows qs n = slice_js (filter (spec_shown_rule qs) (data_or_empty rows)) (Fin 0) n \<and>
   (\<forall>it \<in> set (filtered rows qs n). it \<in> set (data_or_empty rows) \<and> spec_shown_rule qs it) \<and>
   (length (filter (spec_shown_rule qs) (data_or_empty rows)) \<le> m \<longrightarrow>
      (it \<in> set (filtered rows qs (Fin (of_nat m))) \<longleftrightarrow>
         it \<in> set (data_or_empty rows) \<and> spec_shown_rule qs it))"
proof (intro conjI ballI impI)
  show "filtered rows qs n = slice_js (filter (spec_shown_rule qs) (data_or_empty rows)) (Fin 0) n"
    by (simp add: filtered_def row_matches_spec_fun)
next
  fix x assume "x \<in> set (filtered rows qs n)"
  then have "x \<in> set (filter (row_matches qs) (data_or_empty rows))"
    unfolding filtered_take by (rule in_set_takeD)
  then show "x \<in> set (data_or_empty rows)" and "spec_shown_rule qs x"
    by (simp_all add: row_matches_spec)
next
  assume le: "length (filter (spec_shown_rule qs) (data_or_empty rows)) \<le> m"
  have "filtered rows qs (Fin (of_nat m)) = filter (spec_shown_rule qs) (data_or_empty rows)"
    using le unfolding filtered_take by (simp add: row_matches_spec_fun)
  then show "it \<in> set (filtered rows qs (Fin (of_nat m))) \<longleftrightarrow>
         it \<in> set (data_or_empty rows) \<and> spec_shown_rule qs it"
    by simp
qed

theorem filter_rule_witness:
  "length (filter (spec_shown_rule ''aap'') (data_or_empty (Some [entry_AAPL]))) \<le> 50 \<and>
   entry_AAPL \<in> set (filtered (Some [entry_AAPL]) ''aap'' (Fin 50)) \<and>
   filtered (Some [entry_AAPL]) ''zzz'' (Fin 50) = []"
  using filter_rule [of "Some [entry_AAPL]" "''aap''" "Fin 50" 50 entry_AAPL]
        filter_rule [of "Some [entry_AAPL]" "''zzz''" "Fin 50" 50 entry_AAPL] AAPL_aap AAPL_zzz
  by (auto simp: data_or_empty_def slice_js_from_0)

text \<open>
  Claim C5, as stated, at a concrete input: with the row limit \<open>-1\<close> and two rows passing
  the empty filter, one row is shown, which is more than the minimum of \<open>-1\<close> and 2.
\<close>

theorem truncation_negative_limit_counterexample:
  "length (filtered (Some [entry_AAPL, entry_MSFT]) [] (Fin (- 1))) = 1 \<and>
   length (filter (row_matches []) [entry_AAPL, entry_MSFT]) = 2 \<and>
   \<not> rat_of_nat (length (filtered (Some [entry_AAPL, entry_MSFT]) [] (Fin (- 1))))
        \<le> min (- 1) (rat_of_nat (length (filter (row_matches []) [entry_AAPL, entry_MSFT])))"
  by (simp add: filtered_take row_matches_def data_or_empty_def)

text \<open>
  Claim C5, amended: for every row limit, the shown rows are a prefix of the filtered
  sequence, which keeps the order of the artifact, and there are at most as many of them
  as filtered rows; for every row limit \<open>N \<ge> 0\<close> their number is the minimum of the
  integral part of \<open>N\<close> and the number of filtered rows, hence at most the minimum of \<open>N\<close>
  and that number; with the empty filter and \<open>N\<close> at least the length of the sequence,
  every entry is shown, in the original order.
\<close>

theorem truncation_rule:
  "prefix (filtered rows qs n) (filter (row_matches qs) (data_or_empty rows)) \<and>
   subseq (filter (row_matches qs) (data_or_empty rows)) (data_or_empty rows) \<and>
   length (filtered rows qs n) \<le> length (filter (row_matches qs) (data_or_empty rows)) \<and>
   (0 \<le> r \<longrightarrow>
      length (filtered rows qs (Fin r)) =
        min (nat \<lfloor>r\<rfloor>) (length (filter (row_matches qs) (data_or_empty rows))) \<and>
      rat_of_nat (length (filtered rows qs (Fin r)))
        \<le> min r (rat_of_nat (length (filter (row_matches qs) (data_or_empty rows))))) \<and>
   (rat_of_nat (length (data_or_empty rows)) \<le> r \<longrightarrow>
      filtered rows [] (Fin r) = data_or_empty rows)"
proof (intro conjI impI)
  show p: "prefix (filtered rows qs n) (filter (row_matches qs) (data_or_empty rows))"
    by (rule prefix_filtered)
  show "subseq (filter (row_matches qs) (data_or_empty rows)) (data_or_empty rows)"
    by simp
  show "length (filtered rows qs n) \<le> length (filter (row_matches qs) (data_or_empty rows))"
    using p by (rule prefix_length_le)
next
  assume r: "0 \<le> r"
  show len: "length (filtered rows qs (Fin r)) =
        min (nat \<lfloor>r\<rfloor>) (length (filter (row_matches qs) (data_or_empty rows)))"
    using r by (rule length_filtered_nonneg)
  have "rat_of_nat (nat \<lfloor>r\<rfloor>) \<le> r"
    using r by simp
  then show "rat_of_nat (length (filtered rows qs (Fin r)))
        \<le> min r (rat_of_nat (length (filter (row_matches qs) (data_or_empty rows))))"
    unfolding len by (simp add: min_def)
next
  assume le: "rat_of_nat (length (data_or_empty rows)) \<le> r"
  then have r: "0 \<le> r" by (meson of_nat_0_le_iff order_trans)
  have "int (length (data_or_empty rows)) \<le> \<lfloor>r\<rfloor>"
    using le by (simp add: le_floor_iff)
  then show "filtered rows [] (Fin r) = data_or_empty rows"
    using r unfolding filtered_take by (simp add: row_matches_def)
qed

theorem truncation_rule_witness:
  "(0::rat) \<le> 1 \<and> rat_of_nat (length (data_or_empty (Some [entry_AAPL, entry_MSFT]))) \<le> 2 \<and>
   length (filtered (Some [entry_AAPL, entry_MSFT]) [] (Fin 1)) = 1 \<and>
   filtered (Some [entry_AAPL, entry_MSFT]) [] (Fin 2) = [entry_AAPL, entry_MSFT]"
  using truncation_rule [of "Some [entry_AAPL, entry_MSFT]" "[]" "Fin 1" 1]
        truncation_rule [of "Some [entry_AAPL, entry_MSFT]" "[]" "Fin 2" 2]
  by (simp add: data_or_empty_def row_matches_def)

text \<open>
  Claim C6, as stated, at a concrete input: the row limit \<open>-2\<close> is at most 0, and of
  three rows the first is shown.
\<close>

theorem negative_limit_shows_rows_counterexample:
  "(- 2 :: rat) \<le> 0 \<and>
   filtered (Some [entry_AAPL, entry_MSFT, entry_GOOG]) [] (Fin (- 2)) = [entry_AAPL] \<and>
   table_body (Some [entry_AAPL, entry_MSFT, entry_GOOG])
       (topN_onChange (\<lambda>s. Fin (- 2)) ''-2'' table_init)
     = [(1, entry_AAPL)]"
  by (simp add: filtered_take row_matches_def table_body_def topN_onChange_def setTopN_def
      table_init_def data_or_empty_def)

text \<open>
  Claim C6, amended: when the data is empty or absent the table body is empty; when the
  row limit is 0, or any number strictly between \<open>-1\<close> and 1, or \<^verbatim>\<open>NaN\<close>, or minus
  infinity, zero rows are shown; for a row limit \<open>N \<le> -1\<close> the last \<open>|N|\<close> filtered rows
  (its integral part) are left out, so that zero rows are shown only when there are at
  most that many filtered rows; and whatever is typed into the number field is coerced
  by \<^verbatim>\<open>Number\<close> and stored as the row limit, the filter string being kept.
\<close>

theorem table_edge_cases:
  "(data_or_empty rows = [] \<longrightarrow> table_body rows st = []) \<and>
   (topN st = NaN \<or> topN st = NegInf \<or> (\<exists>r. topN st = Fin r \<and> - 1 < r \<and> r < 1)
      \<longrightarrow> table_body rows st = []) \<and>
   (r \<le> - 1 \<longrightarrow>
      filtered rows qs (Fin r) =
        take (length (filter (row_matches qs) (data_or_empty rows)) - nat \<lfloor>- r\<rfloor>)
          (filter (row_matches qs) (data_or_empty rows))) \<and>
   topN (topN_onChange Number v st) = Number v \<and> q (topN_onChange Number v st) = q st"
proof (intro conjI impI)
  assume "data_or_empty rows = []"
  then show "table_body rows st = []"
    by (simp add: table_body_def filtered_take)
next
  assume "topN st = NaN \<or> topN st = NegInf \<or> (\<exists>r. topN st = Fin r \<and> - 1 < r \<and> r < 1)"
  then have "clamp_index len (ToIntegerOrInfinity (topN st)) \<le> 0" for len
  proof (elim disjE exE conjE)
    fix r assume t: "topN st = Fin r" and lo: "- 1 < r" and hi: "r < 1"
    have "\<lfloor>r\<rfloor> = 0" if "0 \<le> r" using that hi by (simp add: floor_eq_iff)
    moreover have "\<lfloor>- r\<rfloor> = 0" if "r < 0" using that lo by (simp add: floor_eq_iff)
    ultimately show ?thesis using t by (simp add: not_less)
  qed simp_all
  then show "table_body rows st = []"
    by (simp add: table_body_def filtered_take)
next
  assume r: "r \<le> - 1"
  then have "1 \<le> \<lfloor>- r\<rfloor>" by (simp add: le_floor_iff)
  then show "filtered rows qs (Fin r) =
        take (length (filter (row_matches qs) (data_or_empty rows)) - nat \<lfloor>- r\<rfloor>)
          (filter (row_matches qs) (data_or_empty rows))"
    using r unfolding filtered_take
    by (auto simp: max_def nat_diff_distrib' intro!: arg_cong2 [where f = take])
qed (simp_all add: topN_onChange_def setTopN_def)

theorem table_edge_cases_witness:
  "data_or_empty None = [] \<and> table_body None table_init = [] \<and>
   table_body (Some [entry_AAPL, entry_MSFT]) (topN_onChange (\<lambda>s. NaN) ''abc'' table_init) = [] \<and>
   (- 1 :: rat) \<le> - 1 \<and> filtered (Some [entry_AAPL, entry_MSFT]) [] (Fin (- 1)) = [entry_AAPL]"
  using table_edge_cases [of None table_init "- 1" "[]" "\<lambda>s. NaN" "''abc''"]
        table_edge_cases [of "Some [entry_AAPL, entry_MSFT]"
                             "topN_onChange (\<lambda>s. NaN) ''abc'' table_init" "- 1" "[]"]
  by (simp add: data_or_empty_def topN_onChange_def setTopN_def row_matches_def)

section \<open>Properties of the detail view\<close>

lemma fetch_effect_fields [simp]:
  "mounted (fetch_effect st) = mounted st"
  "ticker_prop (fetch_effect st) = ticker_prop st"
  "data (fetch_effect st) = data st"
  "chart_cleanup (fetch_effect st) = chart_cleanup st"
  "live_charts (fetch_effect st) = live_charts st"
  "next_chart_id (fetch_effect st) = next_chart_id st"
  "console (fetch_effect st) = console st"
  by (simp_all add: fetch_effect_def split: option.splits)

lemma run_chart_cleanup_fields [simp]:
  "mounted (run_chart_cleanup st) = mounted st"
  "ticker_prop (run_chart_cleanup st) = ticker_prop st"
  "data (run_chart_cleanup st) = data st"
  "chart_cleanup (run_chart_cleanup st) = None"
  "next_chart_id (run_chart_cleanup st) = next_chart_id st"
  "pending (run_chart_cleanup st) = pending st"
  "next_request_id (run_chart_cleanup st) = next_request_id st"
  "fetch_log (run_chart_cleanup st) = fetch_log st"
  "console (run_chart_cleanup st) = console st"
  by (simp_all add: run_chart_cleanup_def split: option.splits)

lemma chart_effect_fields [simp]:
  "mounted (chart_effect st) = mounted st"
  "ticker_prop (chart_effect st) = ticker_prop st"
  "data (chart_effect st) = data st"
  "pending (chart_effect st) = pending st"
  "next_request_id (chart_effect st) = next_request_id st"
  "fetch_log (chart_effect st) = fetch_log st"
  "console (chart_effect st) = console st"
  by (simp_all add: chart_effect_def split: option.splits)

lemma unmount_fields [simp]:
  "mounted (unmount st) = False"
  "ticker_prop (unmount st) = ticker_prop st"
  "data (unmount st) = data st"
  "chart_cleanup (unmount st) = None"
  "next_chart_id (unmount st) = next_chart_id st"
  "pending (unmount st) = pending st"
  "next_request_id (unmount st) = next_request_id st"
  "fetch_log (unmount st) = fetch_log st"
  "console (unmount st) = console st"
  by (simp_all add: unmount_def)

lemma render_cong:
  "ticker_prop s = ticker_prop s' \<Longrightarrow> data s = data s' \<Longrightarrow>
   TickerDetail_render s = TickerDetail_render s'"
  by (simp add: TickerDetail_render_def split: option.splits)

lemma render_effects [simp]:
  "TickerDetail_render (fetch_effect st) = TickerDetail_render st"
  "TickerDetail_render (run_chart_cleanup st) = TickerDetail_render st"
  "TickerDetail_render (chart_effect st) = TickerDetail_render st"
  "TickerDetail_render (unmount st) = TickerDetail_render st"
  by (rule render_cong; simp)+

lemma commit_states_not_Nil [simp]: "commit_states fd cd st \<noteq> []"
  by (simp add: commit_states_def Let_def split: sum.splits)

lemma commit_last_fields [simp]:
  "ticker_prop (last (commit_states fd cd st)) = ticker_prop st"
  "data (last (commit_states fd cd st)) = data st"
  "console (last (commit_states fd cd st)) = console st"
  by (simp_all add: commit_states_def Let_def split: sum.splits)

lemma commit_last_render [simp]:
  "TickerDetail_render (last (commit_states fd cd st)) = TickerDetail_render st"
  by (rule render_cong) simp_all

lemma commit_last_mounted:
  "mounted (last (commit_states fd cd st)) \<longleftrightarrow>
     mounted st \<and> (\<exists>v. TickerDetail_render st = Inr v)"
  by (simp add: commit_states_def Let_def split: sum.splits)

lemma commit_last_fetch_log:
  "TickerDetail_render st = Inr v \<Longrightarrow>
   fetch_log (last (commit_states fd cd st)) = fetch_log (if fd then fetch_effect st else st) \<and>
   pending (last (commit_states fd cd st)) = pending (if fd then fetch_effect st else st)"
  by (simp add: commit_states_def Let_def fetch_effect_def split: option.splits)

subsection \<open>The chart invariant\<close>

lemma chart_inv_init: "chart_inv (detail_init t)"
  by (simp add: chart_inv_def detail_init_def)

lemma cleanup_live: "chart_inv st \<Longrightarrow> live_charts (run_chart_cleanup st) = []"
  by (auto simp: chart_inv_def run_chart_cleanup_def split: option.splits)

lemma chart_inv_cleanup: "chart_inv st \<Longrightarrow> chart_inv (run_chart_cleanup st)"
  by (simp add: chart_inv_def cleanup_live [unfolded chart_inv_def])

lemma chart_inv_fetch: "chart_inv st \<Longrightarrow> chart_inv (fetch_effect st)"
  by (simp add: chart_inv_def split: option.splits)

lemma chart_inv_chart_effect:
  "chart_cleanup st = None \<Longrightarrow> live_charts st = [] \<Longrightarrow> chart_inv (chart_effect st)"
  by (simp add: chart_inv_def chart_effect_def new_chart_def split: option.splits)

lemma chart_inv_unmount: "chart_inv st \<Longrightarrow> chart_inv (unmount st)"
  using chart_inv_cleanup [of st] by (simp add: unmount_def chart_inv_def)

lemma chart_inv_update [simp]:
  "chart_inv (st\<lparr>ticker_prop := t\<rparr>) = chart_inv st"
  "chart_inv (st\<lparr>data := j\<rparr>) = chart_inv st"
  "chart_inv (st\<lparr>pending := p\<rparr>) = chart_inv st"
  "chart_inv (st\<lparr>console := c\<rparr>) = chart_inv st"
  by (simp_all add: chart_inv_def split: option.splits)

lemma chart_inv_commit:
  assumes "chart_inv st"
  shows "\<forall>s \<in> set (commit_states fd cd st). chart_inv s"
proof (cases "TickerDetail_render st")
  case (Inl e)
  then show ?thesis using assms by (simp add: commit_states_def chart_inv_unmount)
next
  case (Inr v)
  show ?thesis
  proof (cases cd)
    case True
    have c: "chart_inv (run_chart_cleanup st)" using assms by (rule chart_inv_cleanup)
    have l: "live_charts (run_chart_cleanup st) = []" using assms by (rule cleanup_live)
    have "chart_inv (chart_effect (if fd then fetch_effect (run_chart_cleanup st)
                                   else run_chart_cleanup st))"
      by (rule chart_inv_chart_effect) (simp_all add: l)
    then show ?thesis using Inr True c by (simp add: commit_states_def Let_def chart_inv_fetch)
  next
    case False
    then show ?thesis using Inr assms by (simp add: commit_states_def Let_def chart_inv_fetch)
  qed
qed

lemma chart_inv_commit_mem:
  "chart_inv st \<Longrightarrow> s \<in> set (commit_states fd cd st) \<Longrightarrow> chart_inv s"
  using chart_inv_commit by blast

lemma chart_inv_steps:
  assumes "chart_inv st"
  shows "\<forall>s \<in> set (detail_steps ev st). chart_inv s"
proof (cases ev)
  case (SetTicker t)
  have "chart_inv (st\<lparr>ticker_prop := t\<rparr>)" using assms by simp
  then have "\<forall>s \<in> set (commit_states True True (st\<lparr>ticker_prop := t\<rparr>)). chart_inv s"
    by (rule chart_inv_commit)
  then show ?thesis using SetTicker assms by (simp add: Let_def)
next
  case (Settle rid out)
  show ?thesis
  proof (cases "map_of (pending st) rid")
    case None
    then show ?thesis using Settle by simp
  next
    case (Some rq)
    show ?thesis
    proof (cases out)
      case (Rejected e)
      then show ?thesis using Settle Some assms by simp
    next
      case (Parsed j)
      have "chart_inv (st\<lparr>pending := filter (\<lambda>p. fst p \<noteq> rid) (pending st), data := j\<rparr>)"
        using assms by simp
      then have "\<forall>s \<in> set (commit_states False True
          (st\<lparr>pending := filter (\<lambda>p. fst p \<noteq> rid) (pending st), data := j\<rparr>)). chart_inv s"
        by (rule chart_inv_commit)
      then show ?thesis using Settle Some Parsed assms by (simp add: Let_def)
    qed
  qed
next
  case Unmount
  then show ?thesis using assms by (simp add: chart_inv_unmount)
qed

lemma chart_inv_handle: "chart_inv st \<Longrightarrow> chart_inv (detail_handle ev st)"
  using chart_inv_steps [of st ev] last_in_set [of "st # detail_steps ev st"]
  by (auto simp: detail_handle_def)

lemma chart_inv_trace: "chart_inv st \<Longrightarrow> \<forall>s \<in> set (detail_trace evs st). chart_inv s"
proof (induction evs arbitrary: st)
  case Nil
  then show ?case by simp
next
  case (Cons ev evs)
  have "chart_inv (detail_handle ev st)"
    using Cons.prems by (rule chart_inv_handle)
  then have "\<forall>s \<in> set (detail_trace evs (detail_handle ev st)). chart_inv s"
    by (rule Cons.IH)
  moreover have "\<forall>s \<in> set (detail_steps ev st). chart_inv s"
    using Cons.prems by (rule chart_inv_steps)
  ultimately show ?case
    using Cons.prems by (simp add: ball_Un)
qed

lemma chart_inv_mount: "chart_inv (mount t)"
  using chart_inv_commit [OF chart_inv_init, of True True t]
        last_in_set [of "commit_states True True (detail_init t)"]
  by (simp add: mount_def)

lemma chart_inv_run: "chart_inv st \<Longrightarrow> chart_inv (detail_run evs st)"
  by (induction evs arbitrary: st) (simp_all add: chart_inv_handle)

lemma run_in_trace: "detail_run evs st \<in> set (detail_trace evs st)"
  by (induction evs arbitrary: st) simp_all

lemma chart_inv_length:
  assumes "chart_inv st"
  shows "length (live_charts st) \<le> 1"
proof (cases "chart_cleanup st")
  case None
  then show ?thesis using assms by (simp add: chart_inv_def)
next
  case (Some c)
  then have "length (map chart_id (live_charts st)) = 1"
    using assms by (simp add: chart_inv_def)
  then show ?thesis by simp
qed

subsection \<open>The chart lifecycle\<close>

lemma chart_effect_live:
  "c \<in> set (live_charts (chart_effect st)) \<Longrightarrow>
   c \<in> set (live_charts st) \<or> chart_id c = next_chart_id st"
  by (auto simp: chart_effect_def new_chart_def split: option.splits if_splits)

lemma unmount_live: "live_charts (unmount st) = live_charts (run_chart_cleanup st)"
  by (simp add: unmount_def)

lemma live_chart_id: "chart_inv st \<Longrightarrow> c \<in> set (live_charts st) \<Longrightarrow> chart_id c < next_chart_id st"
  by (cases "chart_cleanup st") (auto simp: chart_inv_def map_eq_Cons_conv)

lemma commit_destroys:
  assumes inv: "chart_inv st" and c: "c \<in> set (live_charts st)"
  shows "c \<notin> set (live_charts (last (commit_states fd True st)))"
proof (cases "TickerDetail_render st")
  case (Inl e)
  then show ?thesis using inv by (simp add: commit_states_def unmount_live cleanup_live)
next
  case (Inr v)
  define s2 where "s2 = (if fd then fetch_effect (run_chart_cleanup st) else run_chart_cleanup st)"
  have l: "live_charts s2 = []" and n: "next_chart_id s2 = next_chart_id st"
    using inv by (simp_all add: s2_def cleanup_live)
  have "chart_id c \<noteq> next_chart_id st"
    using live_chart_id [OF inv c] by simp
  then have "c \<notin> set (live_charts (chart_effect s2))"
    using chart_effect_live [of c s2] l n by auto
  moreover have "last (commit_states fd True st) = chart_effect s2"
    using Inr by (simp add: commit_states_def Let_def s2_def)
  ultimately show ?thesis by simp
qed

lemma handle_destroys:
  assumes inv: "chart_inv st" and c: "c \<in> set (live_charts st)"
    and ch: "data (detail_handle ev st) \<noteq> data st \<or>
             ticker_prop (detail_handle ev st) \<noteq> ticker_prop st"
  shows "c \<notin> set (live_charts (detail_handle ev st))"
proof (cases ev)
  case (SetTicker t)
  show ?thesis
  proof (cases "\<not> mounted st \<or> t = ticker_prop st")
    case True
    then show ?thesis using ch SetTicker by (simp add: detail_handle_def)
  next
    case False
    have "c \<notin> set (live_charts (last (commit_states True True (st\<lparr>ticker_prop := t\<rparr>))))"
      using inv c by (intro commit_destroys) simp_all
    then show ?thesis using False SetTicker by (simp add: detail_handle_def Let_def)
  qed
next
  case (Settle rid out)
  show ?thesis
  proof (cases "map_of (pending st) rid")
    case None
    then show ?thesis using ch Settle by (simp add: detail_handle_def)
  next
    case (Some rq)
    show ?thesis
    proof (cases out)
      case (Rejected e)
      then show ?thesis using ch Settle Some by (simp add: detail_handle_def)
    next
      case (Parsed j)
      show ?thesis
      proof (cases "\<not> mounted st \<or> (j = None \<and> data st = None)")
        case True
        then show ?thesis using ch Settle Some Parsed by (auto simp: detail_handle_def)
      next
        case False
        have "c \<notin> set (live_charts (last (commit_states False True
                (st\<lparr>pending := filter (\<lambda>p. fst p \<noteq> rid) (pending st), data := j\<rparr>))))"
          using inv c by (intro commit_destroys) simp_all
        then show ?thesis
          using False Settle Some Parsed by (auto simp: detail_handle_def Let_def)
      qed
    qed
  qed
next
  case Unmount
  then show ?thesis using ch by (auto simp: detail_handle_def split: if_splits)
qed

lemma mounting_no_chart: "\<forall>s \<in> set (commit_states True True (detail_init t)). live_charts s = []"
  by (simp add: commit_states_def detail_init_def TickerDetail_render_def Let_def
      run_chart_cleanup_def fetch_effect_def chart_effect_def unmount_def
      split: option.splits sum.splits)

lemma loaded_run_charts: "map chart_id (live_charts loaded_run) = [0]"
  by code_simp

lemma switch_run_charts: "map chart_id (live_charts switch_run) = [1]"
  by code_simp

lemma switch_run_ticker:
  "ticker_prop loaded_run = Some ''AAPL''" "ticker_prop switch_run = Some ''MSFT''"
  by code_simp+

text \<open>
  Claim C3: in every state that one mounted detail view passes through, for every first
  ticker and every sequence of ticker selections, settled requests and unmounting, the
  states inside a commit included, at most one chart is alive (and none while the view
  is being mounted); and whenever an event changes the data or the ticker, every chart
  that was alive before the event is destroyed by it.
\<close>

theorem one_live_chart:
  "(\<forall>s \<in> set (commit_states True True (detail_init t)). live_charts s = []) \<and>
   (\<forall>s \<in> set (detail_trace evs (mount t)). length (live_charts s) \<le> 1) \<and>
   (data (detail_handle ev (detail_run evs (mount t))) \<noteq> data (detail_run evs (mount t)) \<or>
    ticker_prop (detail_handle ev (detail_run evs (mount t)))
      \<noteq> ticker_prop (detail_run evs (mount t))
    \<longrightarrow> (\<forall>c \<in> set (live_charts (detail_run evs (mount t))).
           c \<notin> set (live_charts (detail_handle ev (detail_run evs (mount t))))))"
proof (intro conjI impI ballI)
  fix s assume "s \<in> set (commit_states True True (detail_init t))"
  then show "live_charts s = []" using mounting_no_chart by blast
next
  fix s assume "s \<in> set (detail_trace evs (mount t))"
  then have "chart_inv s" using chart_inv_trace [OF chart_inv_mount] by blast
  then show "length (live_charts s) \<le> 1" by (rule chart_inv_length)
next
  fix c
  assume ch: "data (detail_handle ev (detail_run evs (mount t))) \<noteq> data (detail_run evs (mount t)) \<or>
    ticker_prop (detail_handle ev (detail_run evs (mount t)))
      \<noteq> ticker_prop (detail_run evs (mount t))"
    and c: "c \<in> set (live_charts (detail_run evs (mount t)))"
  have "chart_inv (detail_run evs (mount t))"
    using chart_inv_mount by (rule chart_inv_run)
  then show "c \<notin> set (live_charts (detail_handle ev (detail_run evs (mount t))))"
    using c ch by (rule handle_destroys)
qed

theorem one_live_chart_witness:
  "ticker_prop switch_run \<noteq> ticker_prop loaded_run \<and>
   map chart_id (live_charts loaded_run) = [0] \<and>
   map chart_id (live_charts switch_run) = [1] \<and>
   length (live_charts switch_run) \<le> 1 \<and>
   set (live_charts loaded_run) \<inter> set (live_charts switch_run) = {}"
proof -
  let ?evs = "[SetTicker (Some ''AAPL''), Settle 0 (Parsed (Some detail_AAPL))]"
  let ?ev = "SetTicker (Some ''MSFT'')"
  note a1 = one_live_chart [of None "?evs @ [?ev]" ?ev]
  note a2 = one_live_chart [of None ?evs ?ev]
  have mem: "switch_run \<in> set (detail_trace (?evs @ [?ev]) (mount None))"
    using run_in_trace [of "?evs @ [?ev]" "mount None"]
    by (simp add: switch_run_def loaded_run_def)
  have len: "length (live_charts switch_run) \<le> 1"
    using a1 mem by blast
  have ne: "ticker_prop switch_run \<noteq> ticker_prop loaded_run"
    by (simp add: switch_run_ticker)
  have "\<forall>c \<in> set (live_charts loaded_run). c \<notin> set (live_charts switch_run)"
    using a2 ne by (simp add: switch_run_def loaded_run_def)
  then have "set (live_charts loaded_run) \<inter> set (live_charts switch_run) = {}"
    by blast
  then show ?thesis
    using len ne loaded_run_charts switch_run_charts by simp
qed

subsection \<open>Settled requests and ticker changes\<close>

lemma handle_parsed:
  assumes "mounted st" and "map_of (pending st) rid = Some rq"
  shows "detail_handle (Settle rid (Parsed j)) st =
           (if j = None \<and> data st = None
            then st\<lparr>pending := filter (\<lambda>p. fst p \<noteq> rid) (pending st)\<rparr>
            else last (commit_states False True
                   (st\<lparr>pending := filter (\<lambda>p. fst p \<noteq> rid) (pending st), data := j\<rparr>)))"
  using assms by (simp add: detail_handle_def Let_def)

lemma handle_rejected:
  assumes "map_of (pending st) rid = Some rq"
  shows "detail_handle (Settle rid (Rejected e)) st =
           st\<lparr>pending := filter (\<lambda>p. fst p \<noteq> rid) (pending st), console := console st @ [e]\<rparr>"
  using assms by (simp add: detail_handle_def Let_def)

lemma handle_set_ticker:
  assumes "mounted st" and "t \<noteq> ticker_prop st"
  shows "detail_handle (SetTicker t) st = last (commit_states True True (st\<lparr>ticker_prop := t\<rparr>))"
  using assms by (simp add: detail_handle_def Let_def)

lemma both_pending_eval:
  "mounted both_pending_run"
  "map_of (pending both_pending_run) 0 = Some (detail_request ''AAPL'')"
  "map_of (pending both_pending_run) 1 = Some (detail_request ''MSFT'')"
  "ticker_prop both_pending_run = Some ''MSFT''"
  by code_simp+

text \<open>
  Claim C1, as stated, at a concrete input: AAPL is selected, then MSFT before the
  request of AAPL has settled; the request of MSFT settles, then the request of AAPL.
  The result of AAPL is applied: the view ends with the ticker MSFT and the artifact of
  AAPL, which it displays under the heading MSFT.
\<close>

theorem stale_result_applied_counterexample:
  "map_of (pending both_pending_run) 0 = Some (detail_request ''AAPL'') \<and>
   ticker_prop both_pending_run = Some ''MSFT'' \<and>
   ticker_prop stale_run = Some ''MSFT'' \<and>
   data stale_run = Some detail_AAPL \<and>
   detail_AAPL \<noteq> detail_MSFT \<and>
   TickerDetail_render stale_run = Inr (LoadedView (loaded ''MSFT'' indicators_AAPL))"
  by code_simp

lemma handle_data_change:
  assumes "data (detail_handle ev st) \<noteq> data st"
  shows "mounted st \<and>
         (\<exists>rid j rq. ev = Settle rid (Parsed j) \<and> map_of (pending st) rid = Some rq \<and>
            data (detail_handle ev st) = j)"
proof (cases ev)
  case (SetTicker t)
  then have "data (detail_handle ev st) = data st"
    by (simp add: detail_handle_def Let_def)
  then show ?thesis using assms by simp
next
  case (Settle rid out)
  show ?thesis
  proof (cases "map_of (pending st) rid")
    case None
    then have "data (detail_handle ev st) = data st"
      using Settle by (simp add: detail_handle_def)
    then show ?thesis using assms by simp
  next
    case (Some rq)
    show ?thesis
    proof (cases out)
      case (Rejected e)
      then have "data (detail_handle ev st) = data st"
        using Settle Some by (simp add: handle_rejected)
      then show ?thesis using assms by simp
    next
      case (Parsed j)
      show ?thesis
      proof (cases "mounted st")
        case True
        have "data (detail_handle (Settle rid (Parsed j)) st) = j"
          using True Some by (auto simp: handle_parsed)
        then show ?thesis using True Settle Parsed Some by simp
      next
        case False
        then have "data (detail_handle ev st) = data st"
          using Settle Parsed Some by (simp add: detail_handle_def)
        then show ?thesis using assms by simp
      qed
    qed
  qed
next
  case Unmount
  then have "data (detail_handle ev st) = data st"
    by (simp add: detail_handle_def)
  then show ?thesis using assms by simp
qed

lemma run_keeps_data:
  "\<forall>rid j. Settle rid (Parsed j) \<notin> set evs \<Longrightarrow> data (detail_run evs st) = data st"
proof (induction evs arbitrary: st)
  case Nil
  then show ?case by simp
next
  case (Cons ev evs)
  have "data (detail_handle ev st) = data st"
  proof (rule ccontr)
    assume "data (detail_handle ev st) \<noteq> data st"
    then obtain rid j where "ev = Settle rid (Parsed j)"
      using handle_data_change by blast
    then show False using Cons.prems by auto
  qed
  moreover have "data (detail_run evs (detail_handle ev st)) = data (detail_handle ev st)"
    using Cons.prems by (intro Cons.IH) auto
  ultimately show ?case by simp
qed

text \<open>
  Claim C1, amended: when the request of a detail fetch settles with a parsed value while
  the view is mounted, the value becomes the data of the view whichever ticker is
  selected by then, and the ticker stays as it is: the view then displays that value
  under the selected ticker. Nothing else changes the data: an event that changes it is
  a request in flight settling with a parsed value in a mounted view, and the data is
  then that value; so the data is kept through every run of ticker changes, rejected
  requests and unmounting. The data on display is the value of the request that settled
  with a parsed value last, whichever ticker it was issued for.
\<close>

theorem settled_result_is_applied:
  "(mounted st \<and> map_of (pending st) rid = Some rq \<longrightarrow>
      data (detail_handle (Settle rid (Parsed j)) st) = j \<and>
      ticker_prop (detail_handle (Settle rid (Parsed j)) st) = ticker_prop st \<and>
      TickerDetail_render (detail_handle (Settle rid (Parsed j)) st)
        = TickerDetail_render (st\<lparr>data := j\<rparr>)) \<and>
   (data (detail_handle ev st) \<noteq> data st \<longrightarrow>
      mounted st \<and>
      (\<exists>rid' j' rq'. ev = Settle rid' (Parsed j') \<and> map_of (pending st) rid' = Some rq' \<and>
         data (detail_handle ev st) = j')) \<and>
   ((\<forall>rid' j'. Settle rid' (Parsed j') \<notin> set evs) \<longrightarrow> data (detail_run evs st) = data st)"
proof (intro conjI impI; (elim conjE)?)
  assume m: "mounted st" and p: "map_of (pending st) rid = Some rq"
  let ?s1 = "st\<lparr>pending := filter (\<lambda>p. fst p \<noteq> rid) (pending st), data := j\<rparr>"
  have r: "TickerDetail_render ?s1 = TickerDetail_render (st\<lparr>data := j\<rparr>)"
    by (rule render_cong) simp_all
  show "data (detail_handle (Settle rid (Parsed j)) st) = j"
    using m p by (auto simp: handle_parsed)
  show "ticker_prop (detail_handle (Settle rid (Parsed j)) st) = ticker_prop st"
    using m p by (auto simp: handle_parsed)
  show "TickerDetail_render (detail_handle (Settle rid (Parsed j)) st)
        = TickerDetail_render (st\<lparr>data := j\<rparr>)"
  proof (cases "j = None \<and> data st = None")
    case True
    then show ?thesis using m p by (auto simp: handle_parsed intro: render_cong)
  next
    case False
    then have "detail_handle (Settle rid (Parsed j)) st = last (commit_states False True ?s1)"
      using handle_parsed [OF m p, of j] by auto
    then show ?thesis using r by simp
  qed
next
  assume "data (detail_handle ev st) \<noteq> data st"
  then show "mounted st"
    and "\<exists>rid' j' rq'. ev = Settle rid' (Parsed j') \<and> map_of (pending st) rid' = Some rq' \<and>
         data (detail_handle ev st) = j'"
    using handle_data_change [of ev st] by blast+
next
  assume "\<forall>rid' j'. Settle rid' (Parsed j') \<notin> set evs"
  then show "data (detail_run evs st) = data st"
    by (rule run_keeps_data)
qed

theorem settled_result_is_applied_witness:
  "mounted both_pending_run \<and>
   map_of (pending both_pending_run) 0 = Some (detail_request ''AAPL'') \<and>
   data (detail_handle (Settle 0 (Parsed (Some detail_AAPL))) both_pending_run)
     = Some detail_AAPL \<and>
   ticker_prop (detail_handle (Settle 0 (Parsed (Some detail_AAPL))) both_pending_run)
     = Some ''MSFT'' \<and>
   data (detail_run [Settle 1 (Rejected NetworkFailure), SetTicker (Some ''GOOG'')]
          (detail_handle (Settle 0 (Parsed (Some detail_AAPL))) both_pending_run))
     = Some detail_AAPL"
proof -
  note a = settled_result_is_applied [of both_pending_run 0 "detail_request ''AAPL''"
      "Some detail_AAPL" Unmount "[]"]
  note b = settled_result_is_applied [of
      "detail_handle (Settle 0 (Parsed (Some detail_AAPL))) both_pending_run" 0
      "detail_request ''AAPL''" None Unmount
      "[Settle 1 (Rejected NetworkFailure), SetTicker (Some ''GOOG'')]"]
  have 1: "data (detail_handle (Settle 0 (Parsed (Some detail_AAPL))) both_pending_run)
     = Some detail_AAPL"
    and 2: "ticker_prop (detail_handle (Settle 0 (Parsed (Some detail_AAPL))) both_pending_run)
     = Some ''MSFT''"
    using a both_pending_eval by simp_all
  have "data (detail_run [Settle 1 (Rejected NetworkFailure), SetTicker (Some ''GOOG'')]
          (detail_handle (Settle 0 (Parsed (Some detail_AAPL))) both_pending_run))
     = data (detail_handle (Settle 0 (Parsed (Some detail_AAPL))) both_pending_run)"
    using b by simp
  then show ?thesis using 1 2 both_pending_eval by simp
qed

lemma loaded_run_eval:
  "mounted loaded_run"
  "ticker_prop loaded_run = Some ''AAPL''"
  "data loaded_run = Some detail_AAPL"
  "map url (fetch_log loaded_run) = [''/data/AAPL.json'']"
  by code_simp+

text \<open>
  Claim C2, as stated, at a concrete input: AAPL is selected and its artifact loaded,
  then MSFT is selected. A request is issued for MSFT, but the artifact of AAPL is not
  discarded: the view is not in the loading state, it displays the artifact of AAPL
  under the heading MSFT.
\<close>

theorem ticker_change_not_loading_counterexample:
  "ticker_prop loaded_run = Some ''AAPL'' \<and>
   data loaded_run = Some detail_AAPL \<and>
   ticker_prop switch_run = Some ''MSFT'' \<and>
   data switch_run = Some detail_AAPL \<and>
   TickerDetail_render switch_run = Inr (LoadedView (loaded ''MSFT'' indicators_AAPL)) \<and>
   TickerDetail_render switch_run \<noteq> Inr (LoadingView ''MSFT'') \<and>
   map url (fetch_log switch_run) = [''/data/AAPL.json'', ''/data/MSFT.json'']"
  by code_simp

text \<open>
  Claim C2, amended: for every change of the selected ticker to another, non-empty
  ticker, in a mounted view whose data, if any, has its indicators, one new request is
  issued, for the detail path of the new ticker and with the cache bypassed, and the
  data is kept: the view is in the loading state for the new ticker iff no artifact had
  been fetched before, and otherwise displays the previously fetched artifact under the
  new ticker. The data is replaced when a request settles, and then entirely, by the
  parsed value.
\<close>

theorem ticker_change_issues_fetch:
  assumes "mounted st" and "t \<noteq> []" and "ticker_prop st \<noteq> Some t"
    and "case data st of None \<Rightarrow> True | Some d \<Rightarrow> indicators d \<noteq> None"
  shows "ticker_prop (detail_handle (SetTicker (Some t)) st) = Some t \<and>
         mounted (detail_handle (SetTicker (Some t)) st) \<and>
         data (detail_handle (SetTicker (Some t)) st) = data st \<and>
         fetch_log (detail_handle (SetTicker (Some t)) st)
           = fetch_log st @ [\<lparr>url = ''/data/'' @ t @ ''.json'', cache = ''no-store''\<rparr>] \<and>
         pending (detail_handle (SetTicker (Some t)) st)
           = pending st @ [(next_request_id st, detail_request t)] \<and>
         (TickerDetail_render (detail_handle (SetTicker (Some t)) st) = Inr (LoadingView t)
            \<longleftrightarrow> data st = None) \<and>
         (\<forall>d m. data st = Some d \<and> indicators d = Some m \<longrightarrow>
            TickerDetail_render (detail_handle (SetTicker (Some t)) st)
              = Inr (LoadedView (loaded t m))) \<and>
         (map_of (pending st) rid = Some rq \<longrightarrow>
            data (detail_handle (Settle rid (Parsed j)) st) = j)"
proof -
  let ?s1 = "st\<lparr>ticker_prop := Some t\<rparr>"
  have h: "detail_handle (SetTicker (Some t)) st = last (commit_states True True ?s1)"
    using assms(1,3) by (intro handle_set_ticker) auto
  have r: "TickerDetail_render ?s1 =
             (case data st of None \<Rightarrow> Inr (LoadingView t)
              | Some d \<Rightarrow> Inr (LoadedView (loaded t (the (indicators d)))))"
    using assms(2,4) by (auto simp: TickerDetail_render_def split: option.splits)
  then obtain v where v: "TickerDetail_render ?s1 = Inr v"
    by (cases "data st") auto
  have m: "mounted (last (commit_states True True ?s1))"
    using assms(1) v by (simp add: commit_last_mounted)
  have f: "fetch_log (last (commit_states True True ?s1)) = fetch_log st @ [detail_request t]"
          "pending (last (commit_states True True ?s1))
             = pending st @ [(next_request_id st, detail_request t)]"
    using commit_last_fetch_log [OF v, of True True] assms(2)
    by (simp_all add: fetch_effect_def)
  have s: "data (detail_handle (Settle rid (Parsed j)) st) = j"
    if "map_of (pending st) rid = Some rq"
    using that assms(1) by (auto simp: handle_parsed)
  show ?thesis
    unfolding h using m f r s
    by (auto simp: detail_request_def split: option.splits)
qed

theorem ticker_change_issues_fetch_witness:
  "mounted loaded_run \<and> ticker_prop loaded_run \<noteq> Some ''MSFT'' \<and>
   data loaded_run = Some detail_AAPL \<and>
   data switch_run = Some detail_AAPL \<and>
   map url (fetch_log switch_run) = [''/data/AAPL.json'', ''/data/MSFT.json''] \<and>
   TickerDetail_render switch_run = Inr (LoadedView (loaded ''MSFT'' indicators_AAPL))"
  using ticker_change_issues_fetch [of loaded_run "''MSFT''" 0 "detail_request ''AAPL''" None]
        loaded_run_eval
  by (simp add: switch_run_def detail_AAPL_def)

subsection \<open>No selection\<close>

lemma falsy_ticker_render:
  "ticker_prop st = None \<or> ticker_prop st = Some [] \<Longrightarrow> TickerDetail_render st = Inr SelectPrompt"
  by (auto simp: TickerDetail_render_def)

lemma falsy_ticker_fetch:
  "ticker_prop st = None \<or> ticker_prop st = Some [] \<Longrightarrow> fetch_effect st = st"
  by (auto simp: fetch_effect_def)

lemma commit_fetch_log_no_fetch [simp]:
  "fetch_log (last (commit_states False cd st)) = fetch_log st"
  by (simp add: commit_states_def Let_def split: sum.splits)

lemma handle_falsy_no_fetch:
  assumes "ticker_prop (detail_handle ev st) = None \<or> ticker_prop (detail_handle ev st) = Some []"
  shows "fetch_log (detail_handle ev st) = fetch_log st"
proof (cases ev)
  case (SetTicker t)
  show ?thesis
  proof (cases "\<not> mounted st \<or> t = ticker_prop st")
    case True
    then show ?thesis using SetTicker by (simp add: detail_handle_def)
  next
    case False
    then have h: "detail_handle ev st = last (commit_states True True (st\<lparr>ticker_prop := t\<rparr>))"
      using SetTicker by (simp add: handle_set_ticker)
    have t: "t = None \<or> t = Some []" using assms unfolding h by simp
    then have "TickerDetail_render (st\<lparr>ticker_prop := t\<rparr>) = Inr SelectPrompt"
      by (intro falsy_ticker_render) simp
    from commit_last_fetch_log [OF this, of True True] t show ?thesis
      unfolding h by (simp add: falsy_ticker_fetch)
  qed
next
  case (Settle rid out)
  then show ?thesis
    by (cases out) (auto simp: detail_handle_def Let_def split: option.splits)
next
  case Unmount
  then show ?thesis by (simp add: detail_handle_def)
qed

lemma mount_None_eval:
  "TickerDetail_render (mount None) = Inr SelectPrompt" "fetch_log (mount None) = []"
  "pending (mount None) = []" "mounted (mount None)" "data (mount None) = None"
  "ticker_prop (mount None) = None"
  by code_simp+

text \<open>
  Claim C8: a view mounted without a ticker shows the prompt and has issued no request;
  in every state whose ticker is none (or the empty string, which is as falsy), whatever
  its data, the view shows the prompt; an event after which the ticker is none issues no
  request; and setting the ticker to none in a mounted view leaves it mounted, with the
  ticker none.
\<close>

theorem no_selection_prompt:
  "TickerDetail_render (mount None) = Inr SelectPrompt \<and> fetch_log (mount None) = [] \<and>
   (ticker_prop st = None \<or> ticker_prop st = Some [] \<longrightarrow>
      TickerDetail_render st = Inr SelectPrompt) \<and>
   (ticker_prop (detail_handle ev st) = None \<or> ticker_prop (detail_handle ev st) = Some [] \<longrightarrow>
      fetch_log (detail_handle ev st) = fetch_log st \<and>
      TickerDetail_render (detail_handle ev st) = Inr SelectPrompt) \<and>
   (mounted st \<longrightarrow>
      ticker_prop (detail_handle (SetTicker None) st) = None \<and>
      mounted (detail_handle (SetTicker None) st) \<and>
      TickerDetail_render (detail_handle (SetTicker None) st) = Inr SelectPrompt \<and>
      fetch_log (detail_handle (SetTicker None) st) = fetch_log st)"
proof (intro conjI impI)
  assume m: "mounted st"
  show t: "ticker_prop (detail_handle (SetTicker None) st) = None"
    by (cases "ticker_prop st") (simp_all add: m detail_handle_def Let_def)
  show "mounted (detail_handle (SetTicker None) st)"
    by (cases "ticker_prop st")
      (simp_all add: m detail_handle_def Let_def commit_last_mounted falsy_ticker_render)
  show "TickerDetail_render (detail_handle (SetTicker None) st) = Inr SelectPrompt"
    using t by (simp add: falsy_ticker_render)
  show "fetch_log (detail_handle (SetTicker None) st) = fetch_log st"
    using t by (simp add: handle_falsy_no_fetch)
qed (simp_all add: mount_None_eval falsy_ticker_render handle_falsy_no_fetch)

theorem no_selection_prompt_witness:
  "mounted loaded_run \<and> data loaded_run = Some detail_AAPL \<and>
   ticker_prop (detail_handle (SetTicker None) loaded_run) = None \<and>
   TickerDetail_render (detail_handle (SetTicker None) loaded_run) = Inr SelectPrompt \<and>
   fetch_log (detail_handle (SetTicker None) loaded_run) = fetch_log loaded_run"
  using no_selection_prompt [of loaded_run "SetTicker None"] loaded_run_eval
  by simp

subsection \<open>An artifact without a history\<close>

lemma no_history_eval:
  "mounted (mount (Some ''AAPL''))" "ticker_prop (mount (Some ''AAPL'')) = Some ''AAPL''"
  "map_of (pending (mount (Some ''AAPL''))) 0 = Some (detail_request ''AAPL'')"
  "history detail_no_history = None" "indicators detail_no_history = Some indicators_AAPL"
  by code_simp+

lemma no_indicators_eval:
  "history detail_no_indicators = None" "indicators detail_no_indicators = None"
  by code_simp+

text \<open>
  Claim C10, as stated, at a concrete input: the object without any field is not null
  and lacks a history; when it arrives in a view mounted with the ticker AAPL, the
  render raises a TypeError (it reads a property of the missing indicators) and the
  view is unmounted, so that the loaded display is not rendered.
\<close>

theorem no_indicators_render_raises_counterexample:
  "history detail_no_indicators = None \<and>
   mounted (mount (Some ''AAPL'')) \<and>
   map_of (pending (mount (Some ''AAPL''))) 0 = Some (detail_request ''AAPL'') \<and>
   data (detail_handle (Settle 0 (Parsed (Some detail_no_indicators))) (mount (Some ''AAPL'')))
     = Some detail_no_indicators \<and>
   TickerDetail_render
       (detail_handle (Settle 0 (Parsed (Some detail_no_indicators))) (mount (Some ''AAPL'')))
     = Inl TypeError \<and>
   \<not> mounted
       (detail_handle (Settle 0 (Parsed (Some detail_no_indicators))) (mount (Some ''AAPL'')))"
  by code_simp

text \<open>
  Claim C10, amended: for every detail artifact that lacks a history, the chart effect
  of a view with that artifact as data constructs no chart, registers no cleanup and
  raises nothing. When such an artifact arrives in a mounted view with a ticker, at any
  point of any run, it becomes the data, no chart is alive afterwards and none has been
  constructed; if the artifact has its indicators, the view stays mounted and renders
  the loaded display: the ticker as heading, the score, the explanation, the last close
  and the average volume read from the indicators, the canvas, and the listing of all
  indicators; if it has no indicators, the render raises a TypeError and the view is
  unmounted.
\<close>

theorem no_history_no_chart:
  assumes "history d = None"
  shows "(data st = Some d \<longrightarrow> chart_effect st = st\<lparr>chart_cleanup := None\<rparr>) \<and>
         (data st = Some d \<and> ticker_prop st = Some t \<and> t \<noteq> [] \<longrightarrow>
            TickerDetail_render st =
              (case indicators d of
                 None \<Rightarrow> Inl TypeError
               | Some m \<Rightarrow>
                   Inr (LoadedView
                     \<lparr>heading = t, score = map_of m ''score_0_100'',
                      explanation_line = map_of m ''explanation'', canvas_id = ''histChart'',
                      last_close_line = map_of m ''last_close'',
                      avg_vol20_line = map_of m ''avg_vol20'', key_indicators = m\<rparr>))) \<and>
         (mounted (detail_run evs (mount t0)) \<and>
          ticker_prop (detail_run evs (mount t0)) = Some t \<and> t \<noteq> [] \<and>
          map_of (pending (detail_run evs (mount t0))) rid = Some rq \<longrightarrow>
            data (detail_handle (Settle rid (Parsed (Some d))) (detail_run evs (mount t0)))
              = Some d \<and>
            live_charts (detail_handle (Settle rid (Parsed (Some d))) (detail_run evs (mount t0)))
              = [] \<and>
            next_chart_id
                (detail_handle (Settle rid (Parsed (Some d))) (detail_run evs (mount t0)))
              = next_chart_id (detail_run evs (mount t0)) \<and>
            mounted (detail_handle (Settle rid (Parsed (Some d))) (detail_run evs (mount t0)))
              = (indicators d \<noteq> None) \<and>
            TickerDetail_render
                (detail_handle (Settle rid (Parsed (Some d))) (detail_run evs (mount t0)))
              = (case indicators d of
                   None \<Rightarrow> Inl TypeError
                 | Some m \<Rightarrow>
                     Inr (LoadedView
                       \<lparr>heading = t, score = map_of m ''score_0_100'',
                        explanation_line = map_of m ''explanation'', canvas_id = ''histChart'',
                        last_close_line = map_of m ''last_close'',
                        avg_vol20_line = map_of m ''avg_vol20'', key_indicators = m\<rparr>)))"
proof (intro conjI impI; (elim conjE)?)
  assume "data st = Some d"
  then show "chart_effect st = st\<lparr>chart_cleanup := None\<rparr>"
    using assms by (simp add: chart_effect_def)
next
  assume "data st = Some d" and "ticker_prop st = Some t" and "t \<noteq> []"
  then show "TickerDetail_render st =
              (case indicators d of
                 None \<Rightarrow> Inl TypeError
               | Some m \<Rightarrow>
                   Inr (LoadedView
                     \<lparr>heading = t, score = map_of m ''score_0_100'',
                      explanation_line = map_of m ''explanation'', canvas_id = ''histChart'',
                      last_close_line = map_of m ''last_close'',
                      avg_vol20_line = map_of m ''avg_vol20'', key_indicators = m\<rparr>))"
    by (simp add: TickerDetail_render_def loaded_def split: option.splits)
next
  let ?st = "detail_run evs (mount t0)"
  let ?s1 = "?st\<lparr>pending := filter (\<lambda>p. fst p \<noteq> rid) (pending ?st), data := Some d\<rparr>"
  let ?v = "case indicators d of
              None \<Rightarrow> Inl TypeError
            | Some m \<Rightarrow>
                Inr (LoadedView
                  \<lparr>heading = t, score = map_of m ''score_0_100'',
                   explanation_line = map_of m ''explanation'', canvas_id = ''histChart'',
                   last_close_line = map_of m ''last_close'',
                   avg_vol20_line = map_of m ''avg_vol20'', key_indicators = m\<rparr>)"
  assume mt: "mounted ?st" and tk: "ticker_prop ?st = Some t" and t: "t \<noteq> []"
    and pd: "map_of (pending ?st) rid = Some rq"
  have inv: "chart_inv ?s1"
    using chart_inv_run [OF chart_inv_mount, of evs t0] by simp
  have r: "TickerDetail_render ?s1 = ?v"
    using t tk by (simp add: TickerDetail_render_def loaded_def split: option.splits)
  have h: "detail_handle (Settle rid (Parsed (Some d))) ?st = last (commit_states False True ?s1)"
    using mt pd by (simp add: handle_parsed)
  have l: "live_charts (last (commit_states False True ?s1)) = []"
          "next_chart_id (last (commit_states False True ?s1)) = next_chart_id ?st"
    using cleanup_live [OF inv] assms
    by (simp_all add: commit_states_def Let_def chart_effect_def unmount_live
        split: sum.splits)
  show "data (detail_handle (Settle rid (Parsed (Some d))) ?st) = Some d"
    unfolding h by simp
  show "live_charts (detail_handle (Settle rid (Parsed (Some d))) ?st) = []"
    unfolding h by (rule l)
  show "next_chart_id (detail_handle (Settle rid (Parsed (Some d))) ?st) = next_chart_id ?st"
    unfolding h by (rule l)
  show "mounted (detail_handle (Settle rid (Parsed (Some d))) ?st) = (indicators d \<noteq> None)"
    unfolding h using mt r by (auto simp: commit_last_mounted split: option.splits)
  show "TickerDetail_render (detail_handle (Settle rid (Parsed (Some d))) ?st) = ?v"
    unfolding h using r by simp
qed

theorem no_history_no_chart_witness:
  "history detail_no_history = None \<and> indicators detail_no_history = Some indicators_AAPL \<and>
   mounted (mount (Some ''AAPL'')) \<and>
   map_of (pending (mount (Some ''AAPL''))) 0 = Some (detail_request ''AAPL'') \<and>
   chart_effect ((mount (Some ''AAPL''))\<lparr>data := Some detail_no_history\<rparr>)
     = (mount (Some ''AAPL''))\<lparr>data := Some detail_no_history, chart_cleanup := None\<rparr> \<and>
   TickerDetail_render
       (detail_handle (Settle 0 (Parsed (Some detail_no_history))) (mount (Some ''AAPL'')))
     = Inr (LoadedView
         \<lparr>heading = ''AAPL'', score = Some (JNum 80), explanation_line = Some (JStr ''strong''),
          canvas_id = ''histChart'', last_close_line = Some (JNum (1901 / 10)),
          avg_vol20_line = Some (JNum 50000000), key_indicators = indicators_AAPL\<rparr>) \<and>
   mounted (detail_handle (Settle 0 (Parsed (Some detail_no_history))) (mount (Some ''AAPL''))) \<and>
   live_charts (detail_handle (Settle 0 (Parsed (Some detail_no_history))) (mount (Some ''AAPL'')))
     = []"
proof -
  have m: "map_of indicators_AAPL ''score_0_100'' = Some (JNum 80)"
          "map_of indicators_AAPL ''explanation'' = Some (JStr ''strong'')"
          "map_of indicators_AAPL ''last_close'' = Some (JNum (1901 / 10))"
          "map_of indicators_AAPL ''avg_vol20'' = Some (JNum 50000000)"
    by (simp_all add: indicators_AAPL_def)
  show ?thesis
    using no_history_no_chart [of detail_no_history
          "(mount (Some ''AAPL''))\<lparr>data := Some detail_no_history\<rparr>"
          "''AAPL''" "[]" "Some ''AAPL''" 0 "detail_request ''AAPL''"] no_history_eval m
    by simp
qed

section \<open>Properties of the application shell\<close>

lemma detail_request_url: "url (detail_request t) \<noteq> ''/top_picks.json''"
  by (simp add: detail_request_def)

lemma commit_fetch_log_cases:
  "fetch_log (last (commit_states fd cd st)) = fetch_log st \<or>
   (\<exists>t. fetch_log (last (commit_states fd cd st)) = fetch_log st @ [detail_request t])"
  by (auto simp: commit_states_def Let_def fetch_effect_def split: sum.splits option.splits)

lemma handle_fetch_log_cases:
  "fetch_log (detail_handle ev st) = fetch_log st \<or>
   (\<exists>t. fetch_log (detail_handle ev st) = fetch_log st @ [detail_request t])"
proof (cases ev)
  case (SetTicker t)
  then show ?thesis
    using commit_fetch_log_cases [of True True "st\<lparr>ticker_prop := t\<rparr>"]
    by (auto simp: detail_handle_def Let_def)
next
  case (Settle rid out)
  then show ?thesis
    by (cases out) (auto simp: detail_handle_def Let_def split: option.splits)
next
  case Unmount
  then show ?thesis by (simp add: detail_handle_def)
qed

lemma handle_summary_fetches:
  "filter (\<lambda>r. url r = ''/top_picks.json'') (fetch_log (detail_handle ev st))
     = filter (\<lambda>r. url r = ''/top_picks.json'') (fetch_log st)"
  using handle_fetch_log_cases [of ev st] by (auto simp: detail_request_url)

lemma app_handle_summary_fetches:
  "filter (\<lambda>r. url r = ''/top_picks.json'') (all_requests (app_handle ev st))
     = filter (\<lambda>r. url r = ''/top_picks.json'') (all_requests st)"
proof (cases ev)
  case (SummarySettled out)
  then show ?thesis by (cases out) (simp_all add: all_requests_def Let_def)
qed (simp_all add: all_requests_def Let_def handle_summary_fetches)

lemma app_run_summary_fetches:
  "filter (\<lambda>r. url r = ''/top_picks.json'') (all_requests (app_run evs st))
     = filter (\<lambda>r. url r = ''/top_picks.json'') (all_requests st)"
  by (induction evs arbitrary: st) (simp_all add: app_handle_summary_fetches)

lemma app_mount_eval:
  "selected app_mount = None" "header_generated_at app_mount = None"
  "app_data app_mount = None" "summary_pending app_mount" "app_mounted app_mount"
  "detail app_mount = mount None"
  "filter (\<lambda>r. url r = ''/top_picks.json'') (all_requests app_mount)
     = [\<lparr>url = ''/top_picks.json'', cache = ''no-store''\<rparr>]"
  by code_simp+

lemma app_data_stays_None:
  "app_data st = None \<Longrightarrow> \<forall>s. SummarySettled (Parsed (Some s)) \<notin> set evs \<Longrightarrow>
   app_data (app_run evs st) = None"
proof (induction evs arbitrary: st)
  case Nil
  then show ?case by simp
next
  case (Cons ev evs)
  have "app_data (app_handle ev st) = None"
  proof (cases ev)
    case (SummarySettled out)
    have ne: "out \<noteq> Parsed (Some s)" for s
      using Cons.prems(2) SummarySettled by auto
    show ?thesis
    proof (cases out)
      case (Rejected e)
      then show ?thesis using SummarySettled Cons.prems(1) by (simp add: Let_def)
    next
      case (Parsed j)
      then have "j = None" using ne by (cases j) auto
      then show ?thesis using SummarySettled Parsed Cons.prems(1) by (simp add: Let_def)
    qed
  qed (use Cons.prems in \<open>simp_all add: Let_def\<close>)
  then show ?case using Cons by simp
qed

text \<open>Before the summary request has settled, nothing can be selected.\<close>

lemma app_rows_no_data: "app_data st = None \<Longrightarrow> app_rows st = []"
  by (simp add: app_rows_def table_data_def filtered_take data_or_empty_def)

lemma handle_settle_mount_None: "detail_handle (Settle rid out) (mount None) = mount None"
  by (simp add: detail_handle_def mount_None_eval)

lemma before_summary_settles:
  assumes "summary_pending st" and "app_data st = None" and "detail st = mount None"
    and "\<forall>out. SummarySettled out \<notin> set evs"
  shows "summary_pending (app_run evs st) \<and> app_data (app_run evs st) = None \<and>
         detail (app_run evs st) = mount None"
  using assms
proof (induction evs arbitrary: st)
  case Nil
  then show ?case by simp
next
  case (Cons ev evs)
  have "summary_pending (app_handle ev st) \<and> app_data (app_handle ev st) = None \<and>
        detail (app_handle ev st) = mount None"
  proof (cases ev)
    case (SummarySettled out)
    then have False using Cons.prems(4) by auto
    then show ?thesis ..
  next
    case (RowClick i)
    then show ?thesis using Cons.prems by (simp add: app_rows_no_data)
  next
    case (DetailSettled rid out)
    then show ?thesis using Cons.prems by (simp add: handle_settle_mount_None)
  qed (use Cons.prems in simp_all)
  then show ?case using Cons.IH [of "app_handle ev st"] Cons.prems by simp
qed

lemma after_summary_settled:
  "\<not> summary_pending st \<Longrightarrow> app_data (app_run evs st) = app_data st"
proof (induction evs arbitrary: st)
  case Nil
  then show ?case by simp
next
  case (Cons ev evs)
  have "\<not> summary_pending (app_handle ev st) \<and> app_data (app_handle ev st) = app_data st"
    using Cons.prems by (cases ev) (simp_all add: Let_def)
  then show ?case using Cons.IH [of "app_handle ev st"] by simp
qed

lemma app_run_append: "app_run (xs @ ys) st = app_run ys (app_run xs st)"
  by (induction xs arbitrary: st) simp_all

lemma no_artifact_yet:
  assumes "app_data st = None" and "detail st = mount None"
    and "\<forall>s. SummarySettled (Parsed (Some s)) \<notin> set evs"
  shows "app_data (app_run evs st) = None \<and> detail (app_run evs st) = mount None"
  using assms
proof (induction evs arbitrary: st)
  case Nil
  then show ?case by simp
next
  case (Cons ev evs)
  have "app_data (app_handle ev st) = None \<and> detail (app_handle ev st) = mount None"
  proof (cases ev)
    case (SummarySettled out)
    have ne: "out \<noteq> Parsed (Some s)" for s
      using Cons.prems(3) SummarySettled by auto
    show ?thesis
    proof (cases out)
      case (Rejected e)
      then show ?thesis using SummarySettled Cons.prems(1,2) by (simp add: Let_def)
    next
      case (Parsed j)
      then have "j = None" using ne by (cases j) auto
      then show ?thesis using SummarySettled Parsed Cons.prems(1,2) by (simp add: Let_def)
    qed
  next
    case (RowClick i)
    then show ?thesis using Cons.prems by (simp add: app_rows_no_data)
  next
    case (DetailSettled rid out)
    then show ?thesis using Cons.prems by (simp add: handle_settle_mount_None)
  qed (use Cons.prems in simp_all)
  then show ?case using Cons.IH [of "app_handle ev st"] Cons.prems by simp
qed

lemma renderable_render: "renderable st \<Longrightarrow> \<exists>v. TickerDetail_render st = Inr v"
  by (auto simp: renderable_def TickerDetail_render_def split: option.splits)

lemma commit_keeps_mounted:
  "mounted st \<Longrightarrow> renderable st \<Longrightarrow> mounted (last (commit_states fd cd st))"
  by (simp add: commit_last_mounted renderable_render)

lemma renderable_cong: "data s = data s' \<Longrightarrow> renderable s = renderable s'"
  by (simp add: renderable_def)

lemma handle_keeps_mounted:
  assumes "mounted st" and "renderable st" and "ev \<noteq> Unmount"
    and "\<forall>rid d. ev = Settle rid (Parsed (Some d)) \<longrightarrow> indicators d \<noteq> None"
  shows "mounted (detail_handle ev st) \<and> renderable (detail_handle ev st)"
proof (cases ev)
  case (SetTicker t)
  have "renderable (st\<lparr>ticker_prop := t\<rparr>)"
    using assms(2) by (simp add: renderable_def)
  then have "mounted (last (commit_states True True (st\<lparr>ticker_prop := t\<rparr>)))"
    using assms(1) by (intro commit_keeps_mounted) simp_all
  moreover have "renderable (last (commit_states True True (st\<lparr>ticker_prop := t\<rparr>)))
      = renderable st"
    by (rule renderable_cong) simp
  ultimately show ?thesis
    using SetTicker assms(1,2) by (simp add: detail_handle_def Let_def)
next
  case (Settle rid out)
  show ?thesis
  proof (cases "map_of (pending st) rid")
    case None
    then show ?thesis using Settle assms(1,2) by (simp add: detail_handle_def)
  next
    case (Some rq)
    show ?thesis
    proof (cases out)
      case (Rejected e)
      have "renderable (st\<lparr>pending := filter (\<lambda>p. fst p \<noteq> rid) (pending st),
                           console := console st @ [e]\<rparr>) = renderable st"
        by (rule renderable_cong) simp
      then show ?thesis
        using Settle Some Rejected assms(1,2) by (simp add: handle_rejected)
    next
      case (Parsed j)
      let ?s0 = "st\<lparr>pending := filter (\<lambda>p. fst p \<noteq> rid) (pending st)\<rparr>"
      let ?s1 = "st\<lparr>pending := filter (\<lambda>p. fst p \<noteq> rid) (pending st), data := j\<rparr>"
      have r0: "renderable ?s0"
        using assms(2) by (simp add: renderable_def)
      have r1: "renderable ?s1"
        using assms(4) Settle Parsed by (cases j) (simp_all add: renderable_def)
      have m1: "mounted (last (commit_states False True ?s1))"
        using assms(1) r1 by (intro commit_keeps_mounted) simp_all
      have "renderable (last (commit_states False True ?s1)) = renderable ?s1"
        by (rule renderable_cong) simp
      then show ?thesis
        using Settle Some Parsed assms(1) r0 r1 m1
        by (simp add: handle_parsed [OF assms(1) Some])
    qed
  qed
next
  case Unmount
  then show ?thesis using assms(3) by simp
qed

lemma app_stays_mounted:
  assumes "app_mounted st" and "renderable (detail st)"
    and "\<forall>rid d. DetailSettled rid (Parsed (Some d)) \<in> set evs \<longrightarrow> indicators d \<noteq> None"
  shows "app_mounted (app_run evs st)"
  using assms
proof (induction evs arbitrary: st)
  case Nil
  then show ?case by simp
next
  case (Cons ev evs)
  have "app_mounted (app_handle ev st) \<and> renderable (detail (app_handle ev st))"
  proof (cases ev)
    case (SummarySettled out)
    then show ?thesis
      using Cons.prems(1,2) by (cases out) (simp_all add: Let_def app_mounted_def)
  next
    case (RowClick i)
    then show ?thesis
      using Cons.prems(1,2)
        handle_keeps_mounted [of "detail st" "SetTicker (Some (ticker (app_rows st ! i)))"]
      by (simp add: Let_def app_mounted_def)
  next
    case (DetailSettled rid out)
    have "\<forall>rid' d. Settle rid out = Settle rid' (Parsed (Some d)) \<longrightarrow> indicators d \<noteq> None"
      using Cons.prems(3) DetailSettled by auto
    then show ?thesis
      using DetailSettled Cons.prems(1,2) handle_keeps_mounted [of "detail st" "Settle rid out"]
      by (simp add: app_mounted_def)
  qed (use Cons.prems in \<open>simp_all add: app_mounted_def\<close>)
  then show ?case using Cons.IH [of "app_handle ev st"] Cons.prems(3) by simp
qed

lemma crash_run_eval:
  "app_data crash_run = Some summary_AAPL" "\<not> app_mounted crash_run"
  "App_header crash_run = NoHeader" "header_generated_at crash_run = None"
  by code_simp+

text \<open>
  Claim C9, as stated, at a concrete input: the summary is loaded, its row is clicked,
  and the detail request delivers an object without indicators. The render of the detail
  view raises, the tree is unmounted, and the header does not show the \<open>generated_at\<close> of
  the loaded artifact: there is no header.
\<close>

theorem header_gone_after_render_error_counterexample:
  "app_data crash_run = Some summary_AAPL \<and>
   generated_at summary_AAPL = Some ''2024-01-01'' \<and>
   \<not> app_mounted crash_run \<and>
   App_header crash_run = NoHeader \<and>
   header_generated_at crash_run = None"
  by code_simp

text \<open>
  Claim C9, amended: the shell starts with no ticker selected and a header with a blank
  timestamp; whatever happens after mounting, the requests issued for the summary path,
  by the shell and the detail view together, are exactly the one request of the mount;
  as long as no summary artifact has been delivered the tree is mounted and the
  timestamp is blank; and once the request has settled with an artifact, the header
  shows the \<open>generated_at\<close> of that artifact for as long as the tree is mounted, and there
  is no header once a render error has unmounted the tree. The tree stays mounted, and
  the timestamp shown, when every detail artifact delivered has its indicators.
\<close>

theorem shell_fetches_summary_once:
  "selected app_mount = None \<and> App_header app_mount = Header None \<and>
   filter (\<lambda>r. url r = ''/top_picks.json'') (all_requests (app_run evs app_mount))
     = [\<lparr>url = ''/top_picks.json'', cache = ''no-store''\<rparr>] \<and>
   ((\<forall>s. SummarySettled (Parsed (Some s)) \<notin> set evs) \<longrightarrow>
      App_header (app_run evs app_mount) = Header None) \<and>
   ((\<forall>out. SummarySettled out \<notin> set evs) \<longrightarrow>
      App_header (app_run (evs @ SummarySettled (Parsed (Some s)) # evs') app_mount)
        = (if app_mounted (app_run (evs @ SummarySettled (Parsed (Some s)) # evs') app_mount)
           then Header (generated_at s) else NoHeader) \<and>
      ((\<forall>rid d. DetailSettled rid (Parsed (Some d)) \<in> set evs' \<longrightarrow> indicators d \<noteq> None) \<longrightarrow>
         App_header (app_run (evs @ SummarySettled (Parsed (Some s)) # evs') app_mount)
           = Header (generated_at s)))"
proof (intro conjI impI)
  show "App_header app_mount = Header None"
    by (simp add: App_header_def app_mount_eval)
next
  show "filter (\<lambda>r. url r = ''/top_picks.json'') (all_requests (app_run evs app_mount))
     = [\<lparr>url = ''/top_picks.json'', cache = ''no-store''\<rparr>]"
    by (simp add: app_run_summary_fetches app_mount_eval)
next
  assume "\<forall>s. SummarySettled (Parsed (Some s)) \<notin> set evs"
  then have "app_data (app_run evs app_mount) = None \<and> detail (app_run evs app_mount) = mount None"
    by (intro no_artifact_yet) (simp_all add: app_mount_eval)
  then show "App_header (app_run evs app_mount) = Header None"
    by (simp add: App_header_def app_mounted_def mount_None_eval)
next
  assume ns: "\<forall>out. SummarySettled out \<notin> set evs"
  then have b: "summary_pending (app_run evs app_mount) \<and> app_data (app_run evs app_mount) = None \<and>
         detail (app_run evs app_mount) = mount None"
    by (intro before_summary_settles) (simp_all add: app_mount_eval)
  define st1 where "st1 = app_handle (SummarySettled (Parsed (Some s))) (app_run evs app_mount)"
  have st1: "\<not> summary_pending st1 \<and> app_data st1 = Some s \<and> detail st1 = mount None"
    using b by (simp add: st1_def Let_def app_mounted_def mount_None_eval)
  then have d: "app_data (app_run evs' st1) = Some s"
    using after_summary_settled [of st1 evs'] by simp
  have run: "app_run (evs @ SummarySettled (Parsed (Some s)) # evs') app_mount = app_run evs' st1"
    by (simp add: app_run_append st1_def)
  show "App_header (app_run (evs @ SummarySettled (Parsed (Some s)) # evs') app_mount)
        = (if app_mounted (app_run (evs @ SummarySettled (Parsed (Some s)) # evs') app_mount)
           then Header (generated_at s) else NoHeader)"
    unfolding run using d by (simp add: App_header_def)
  assume "\<forall>rid d. DetailSettled rid (Parsed (Some d)) \<in> set evs' \<longrightarrow> indicators d \<noteq> None"
  then have "app_mounted (app_run evs' st1)"
    using st1 by (intro app_stays_mounted)
      (simp_all add: app_mounted_def renderable_def mount_None_eval)
  then show "App_header (app_run (evs @ SummarySettled (Parsed (Some s)) # evs') app_mount)
           = Header (generated_at s)"
    unfolding run using d by (simp add: App_header_def)
qed (simp_all add: app_mount_eval)

theorem shell_fetches_summary_once_witness:
  "map url (all_requests (app_run [SummarySettled (Parsed (Some summary_AAPL)), RowClick 0]
      app_mount)) = [''/top_picks.json'', ''/data/AAPL.json''] \<and>
   App_header (app_run [QInput ''a''] app_mount) = Header None \<and>
   App_header
       (app_run ([QInput ''a''] @ SummarySettled (Parsed (Some summary_AAPL))
                   # [RowClick 0, DetailSettled 0 (Parsed (Some detail_AAPL))])
          app_mount)
     = Header (Some ''2024-01-01'') \<and>
   App_header crash_run = NoHeader"
proof -
  note w = shell_fetches_summary_once [of "[QInput ''a'']" summary_AAPL
      "[RowClick 0, DetailSettled 0 (Parsed (Some detail_AAPL))]"]
  note c = shell_fetches_summary_once [of "[]" summary_AAPL
      "[RowClick 0, DetailSettled 0 (Parsed (Some detail_no_indicators))]"]
  have g: "generated_at summary_AAPL = Some ''2024-01-01''"
    by (simp add: summary_AAPL_def)
  have p1: "\<forall>s. SummarySettled (Parsed (Some s)) \<notin> set [QInput ''a'']"
    and p2: "\<forall>out. SummarySettled out \<notin> set [QInput ''a'']"
    and p3: "\<forall>out. SummarySettled out \<notin> set []"
    by simp_all
  have p4: "\<forall>rid d. DetailSettled rid (Parsed (Some d))
              \<in> set [RowClick 0, DetailSettled 0 (Parsed (Some detail_AAPL))]
            \<longrightarrow> indicators d \<noteq> None"
    by (simp add: detail_AAPL_def)
  have 1: "map url (all_requests (app_run [SummarySettled (Parsed (Some summary_AAPL)), RowClick 0]
      app_mount)) = [''/top_picks.json'', ''/data/AAPL.json'']"
    by code_simp
  have 2: "App_header (app_run [QInput ''a''] app_mount) = Header None"
    using w p1 by blast
  have "App_header
       (app_run ([QInput ''a''] @ SummarySettled (Parsed (Some summary_AAPL))
                   # [RowClick 0, DetailSettled 0 (Parsed (Some detail_AAPL))])
          app_mount)
     = Header (generated_at summary_AAPL)"
    using w p2 p4 by blast
  then have 3: "App_header
       (app_run ([QInput ''a''] @ SummarySettled (Parsed (Some summary_AAPL))
                   # [RowClick 0, DetailSettled 0 (Parsed (Some detail_AAPL))])
          app_mount)
     = Header (Some ''2024-01-01'')"
    by (simp only: g)
  have r: "crash_run = app_run ([] @ SummarySettled (Parsed (Some summary_AAPL))
             # [RowClick 0, DetailSettled 0 (Parsed (Some detail_no_indicators))]) app_mount"
    by (simp only: crash_run_def append_Nil)
  have "App_header crash_run
      = (if app_mounted crash_run then Header (generated_at summary_AAPL) else NoHeader)"
    unfolding r using c p3 by blast
  then have 4: "App_header crash_run = NoHeader"
    using crash_run_eval(2) by (simp only: if_False)
  show ?thesis
    using 1 2 3 4 by blast
qed

subsection \<open>A fetch that fails\<close>

lemma failed_detail_eval:
  "map_of (pending (mount (Some ''XXX''))) 0 = Some (detail_request ''XXX'')"
  "data (mount (Some ''XXX'')) = None" "ticker_prop (mount (Some ''XXX'')) = Some ''XXX''"
  "console (mount (Some ''XXX'')) = []"
  by code_simp+

text \<open>
  Claim C7: when the promise of a detail request is rejected, by a transport failure or
  by a body that does not parse, the failure is appended to the console and nothing else
  of the view changes: its data, its ticker and whether it is mounted stay as they were
  and it renders what it rendered before, the loading state of its ticker if it had no
  data. When the promise of the summary request is rejected, the failure is appended to
  the console and the shell keeps its data: if it had none, the table has no rows and
  the timestamp is blank.
\<close>

theorem fetch_failure_is_logged:
  "(map_of (pending st) rid = Some rq \<longrightarrow>
      detail_handle (Settle rid (Rejected e)) st
        = st\<lparr>pending := filter (\<lambda>p. fst p \<noteq> rid) (pending st), console := console st @ [e]\<rparr> \<and>
      data (detail_handle (Settle rid (Rejected e)) st) = data st \<and>
      mounted (detail_handle (Settle rid (Rejected e)) st) = mounted st \<and>
      TickerDetail_render (detail_handle (Settle rid (Rejected e)) st) = TickerDetail_render st \<and>
      (data st = None \<and> ticker_prop st = Some t \<and> t \<noteq> [] \<longrightarrow>
         TickerDetail_render (detail_handle (Settle rid (Rejected e)) st) = Inr (LoadingView t))) \<and>
   (summary_pending ap \<longrightarrow>
      app_handle (SummarySettled (Rejected e)) ap
        = ap\<lparr>summary_pending := False, app_console := app_console ap @ [e]\<rparr> \<and>
      (app_data ap = None \<longrightarrow>
         app_rows (app_handle (SummarySettled (Rejected e)) ap) = [] \<and>
         table_body (Some (table_data (app_handle (SummarySettled (Rejected e)) ap)))
           (table (app_handle (SummarySettled (Rejected e)) ap)) = [] \<and>
         header_generated_at (app_handle (SummarySettled (Rejected e)) ap) = None))"
proof (intro conjI impI; (elim conjE)?)
  assume p: "map_of (pending st) rid = Some rq"
  show h: "detail_handle (Settle rid (Rejected e)) st
        = st\<lparr>pending := filter (\<lambda>p. fst p \<noteq> rid) (pending st), console := console st @ [e]\<rparr>"
    using p by (rule handle_rejected)
  show "data (detail_handle (Settle rid (Rejected e)) st) = data st"
    and "mounted (detail_handle (Settle rid (Rejected e)) st) = mounted st"
    unfolding h by simp_all
  show r: "TickerDetail_render (detail_handle (Settle rid (Rejected e)) st) = TickerDetail_render st"
    unfolding h by (rule render_cong) simp_all
  show "TickerDetail_render (detail_handle (Settle rid (Rejected e)) st) = Inr (LoadingView t)"
    if "data st = None" "ticker_prop st = Some t" "t \<noteq> []"
    unfolding r using that by (simp add: TickerDetail_render_def)
next
  assume p: "summary_pending ap"
  show h: "app_handle (SummarySettled (Rejected e)) ap
        = ap\<lparr>summary_pending := False, app_console := app_console ap @ [e]\<rparr>"
    using p by (simp add: Let_def)
  assume n: "app_data ap = None"
  show "app_rows (app_handle (SummarySettled (Rejected e)) ap) = []"
    unfolding h using n by (simp add: app_rows_no_data)
  show "table_body (Some (table_data (app_handle (SummarySettled (Rejected e)) ap)))
           (table (app_handle (SummarySettled (Rejected e)) ap)) = []"
    unfolding h using n by (simp add: table_body_def table_data_def filtered_take data_or_empty_def)
  show "header_generated_at (app_handle (SummarySettled (Rejected e)) ap) = None"
    unfolding h using n by (simp add: header_generated_at_def App_header_def)
qed

theorem fetch_failure_is_logged_witness:
  "map_of (pending (mount (Some ''XXX''))) 0 = Some (detail_request ''XXX'') \<and>
   summary_pending app_mount \<and>
   TickerDetail_render (detail_handle (Settle 0 (Rejected UnparseableBody)) (mount (Some ''XXX'')))
     = Inr (LoadingView ''XXX'') \<and>
   console (detail_handle (Settle 0 (Rejected UnparseableBody)) (mount (Some ''XXX'')))
     = [UnparseableBody] \<and>
   app_rows (app_handle (SummarySettled (Rejected NetworkFailure)) app_mount) = [] \<and>
   app_console (app_handle (SummarySettled (Rejected NetworkFailure)) app_mount)
     = [NetworkFailure]"
proof -
  note d = fetch_failure_is_logged [of "mount (Some ''XXX'')" 0 "detail_request ''XXX''"
      UnparseableBody "''XXX''" app_mount]
  note a = fetch_failure_is_logged [of "mount (Some ''XXX'')" 0 "detail_request ''XXX''"
      NetworkFailure "''XXX''" app_mount]
  have x: "''XXX'' \<noteq> []" by simp
  have c: "app_console app_mount = []" by code_simp
  have "TickerDetail_render
      (detail_handle (Settle 0 (Rejected UnparseableBody)) (mount (Some ''XXX'')))
     = Inr (LoadingView ''XXX'')"
    using d failed_detail_eval(1,2,3) x by blast
  moreover have "console (detail_handle (Settle 0 (Rejected UnparseableBody)) (mount (Some ''XXX'')))
     = [UnparseableBody]"
    using d failed_detail_eval by simp
  moreover have "app_rows (app_handle (SummarySettled (Rejected NetworkFailure)) app_mount) = []"
    using a app_mount_eval(3,4) by blast
  moreover have "app_console (app_handle (SummarySettled (Rejected NetworkFailure)) app_mount)
     = [NetworkFailure]"
    using a app_mount_eval c by simp
  ultimately show ?thesis
    using failed_detail_eval(1) app_mount_eval(4) by simp
qed

end
